theory Spec2Isabelle
  imports Main "HOL-Library.Sublist"
begin

section \<open>Strings and the Go library functions the program calls\<close>

text \<open>
  Go strings are byte sequences; \<^typ>\<open>string\<close> is a list of 8-bit characters.
  Byte comparisons of the source (\<^verbatim>\<open>c >= '0' && c <= '9'\<close>) are comparisons of
  the numeric value of the byte.
\<close>

definition byte :: "char \<Rightarrow> nat" where
  "byte c = of_char c"

text \<open>
  \<^verbatim>\<open>strings.Split(s, sep)\<close> for a one-byte separator: the pieces between the
  occurrences of the separator, so always at least one piece.
\<close>

fun Split :: "string \<Rightarrow> char \<Rightarrow> string list" where
  "Split [] sep = [[]]"
| "Split (c # cs) sep =
     (if c = sep then [] # Split cs sep
      else (case Split cs sep of [] \<Rightarrow> [[c]] | piece # pieces \<Rightarrow> (c # piece) # pieces))"

text \<open>\<^verbatim>\<open>strings.Join(elems, sep)\<close>.\<close>

fun Join :: "string list \<Rightarrow> string \<Rightarrow> string" where
  "Join [] sep = []"
| "Join [x] sep = x"
| "Join (x # y # ys) sep = x @ sep @ Join (y # ys) sep"

text \<open>\<^verbatim>\<open>strings.HasPrefix\<close>, \<^verbatim>\<open>strings.TrimPrefix\<close>, \<^verbatim>\<open>strings.Contains\<close>.\<close>

definition HasPrefix :: "string \<Rightarrow> string \<Rightarrow> bool" where
  "HasPrefix s pfx = (take (length pfx) s = pfx)"

definition TrimPrefix :: "string \<Rightarrow> string \<Rightarrow> string" where
  "TrimPrefix s pfx = (if HasPrefix s pfx then drop (length pfx) s else s)"

fun Contains :: "string \<Rightarrow> string \<Rightarrow> bool" where
  "Contains [] substr = (substr = [])"
| "Contains (c # cs) substr = (HasPrefix (c # cs) substr \<or> Contains cs substr)"

text \<open>
  \<^verbatim>\<open>strings.TrimSpace\<close> removes leading and trailing Unicode white space. On bytes:
  the six ASCII spaces, and the UTF-8 encodings of U+0085, U+00A0 (two bytes) and of
  U+1680, U+2000..U+200A, U+2028, U+2029, U+202F, U+205F, U+3000 (three bytes).
\<close>

definition ascii_space :: "char \<Rightarrow> bool" where
  "ascii_space c = (byte c = 9 \<or> byte c = 10 \<or> byte c = 11 \<or> byte c = 12 \<or> byte c = 13 \<or> byte c = 32)"

definition space2 :: "char \<Rightarrow> char \<Rightarrow> bool" where
  "space2 a b = (byte a = 0xC2 \<and> (byte b = 0x85 \<or> byte b = 0xA0))"

definition space3 :: "char \<Rightarrow> char \<Rightarrow> char \<Rightarrow> bool" where
  "space3 a b c =
     ((byte a = 0xE1 \<and> byte b = 0x9A \<and> byte c = 0x80) \<or>
      (byte a = 0xE2 \<and> byte b = 0x80 \<and>
         ((0x80 \<le> byte c \<and> byte c \<le> 0x8A) \<or> byte c = 0xA8 \<or> byte c = 0xA9 \<or> byte c = 0xAF)) \<or>
      (byte a = 0xE2 \<and> byte b = 0x81 \<and> byte c = 0x9F) \<or>
      (byte a = 0xE3 \<and> byte b = 0x80 \<and> byte c = 0x80))"

text \<open>Width in bytes of the white-space rune a string starts with, 0 when it starts with none.\<close>

fun space_width :: "string \<Rightarrow> nat" where
  "space_width [] = 0"
| "space_width [a] = (if ascii_space a then 1 else 0)"
| "space_width [a, b] = (if ascii_space a then 1 else if space2 a b then 2 else 0)"
| "space_width (a # b # c # s) =
     (if ascii_space a then 1 else if space2 a b then 2 else if space3 a b c then 3 else 0)"

text \<open>Width of the white-space rune a string ends with, 0 when it ends with none.\<close>

definition space_width_end :: "string \<Rightarrow> nat" where
  "space_width_end s =
     (let n = length s in
      if n \<ge> 1 \<and> ascii_space (s ! (n - 1)) then 1
      else if n \<ge> 2 \<and> space2 (s ! (n - 2)) (s ! (n - 1)) then 2
      else if n \<ge> 3 \<and> space3 (s ! (n - 3)) (s ! (n - 2)) (s ! (n - 1)) then 3
      else 0)"

function TrimLeftSpace :: "string \<Rightarrow> string" where
  "TrimLeftSpace s =
     (if s \<noteq> [] \<and> space_width s \<noteq> 0 then TrimLeftSpace (drop (space_width s) s) else s)"
  by pat_completeness auto
termination
  by (relation "measure length") auto

function TrimRightSpace :: "string \<Rightarrow> string" where
  "TrimRightSpace s =
     (if s \<noteq> [] \<and> space_width_end s \<noteq> 0
      then TrimRightSpace (take (length s - space_width_end s) s) else s)"
  by pat_completeness auto
termination
  by (relation "measure length") auto

declare TrimLeftSpace.simps [simp del]
declare TrimRightSpace.simps [simp del]

definition TrimSpace :: "string \<Rightarrow> string" where
  "TrimSpace s = TrimRightSpace (TrimLeftSpace s)"

text \<open>Decimal formatting of an integer, as \<^verbatim>\<open>%d\<close> and the JSON encoder print it.\<close>

definition digit_char :: "nat \<Rightarrow> char" where
  "digit_char d = ''0123456789'' ! d"

function decimal :: "nat \<Rightarrow> string" where
  "decimal n = (if n < 10 then [digit_char n] else decimal (n div 10) @ [digit_char (n mod 10)])"
  by pat_completeness auto
termination
  by (relation "measure id") auto

declare decimal.simps [simp del]

definition Itoa :: "int \<Rightarrow> string" where
  "Itoa i = (if i < 0 then CHR ''-'' # decimal (nat (- i)) else decimal (nat i))"

subsection \<open>\<^verbatim>\<open>net.ParseIP\<close> and \<^verbatim>\<open>IP.To4\<close>\<close>

text \<open>
  The program classifies every address with Go's \<^verbatim>\<open>net.ParseIP\<close> (which is
  \<^verbatim>\<open>netip.ParseAddr\<close> followed by the rejection of zoned addresses) and
  \<^verbatim>\<open>IP.To4\<close>. An address is the list of its bytes.

  \<^verbatim>\<open>parseIPv4Fields\<close>: dotted decimal, four fields, no leading zero, each at most 255.
  \<open>prev\<close> is the byte before the current one (\<open>None\<close> at index 0), \<open>fields\<close> the fields
  stored so far (their number is the source's \<^verbatim>\<open>pos\<close>).
\<close>

definition is_digit :: "char \<Rightarrow> bool" where
  "is_digit c = (byte CHR ''0'' \<le> byte c \<and> byte c \<le> byte CHR ''9'')"

fun parseIPv4Fields :: "string \<Rightarrow> char option \<Rightarrow> nat \<Rightarrow> nat \<Rightarrow> nat list \<Rightarrow> nat list option" where
  "parseIPv4Fields [] prev val digLen fields =
     (if length fields < 3 then None else Some (fields @ [val]))"
| "parseIPv4Fields (c # cs) prev val digLen fields =
     (if is_digit c then
        (if digLen = 1 \<and> val = 0 then None
         else let val' = val * 10 + (byte c - byte CHR ''0'') in
              if val' > 255 then None
              else parseIPv4Fields cs (Some c) val' (digLen + 1) fields)
      else if c = CHR ''.'' then
        (if prev = None \<or> cs = [] \<or> prev = Some CHR ''.'' then None
         else if length fields = 3 then None
         else parseIPv4Fields cs (Some c) 0 0 (fields @ [val]))
      else None)"

definition hex_digit :: "char \<Rightarrow> nat option" where
  "hex_digit c =
     (if byte CHR ''0'' \<le> byte c \<and> byte c \<le> byte CHR ''9'' then Some (byte c - byte CHR ''0'')
      else if byte CHR ''a'' \<le> byte c \<and> byte c \<le> byte CHR ''f'' then Some (byte c - byte CHR ''a'' + 10)
      else if byte CHR ''A'' \<le> byte c \<and> byte c \<le> byte CHR ''F'' then Some (byte c - byte CHR ''A'' + 10)
      else None)"

text \<open>
  The inner loop of \<^verbatim>\<open>parseIPv6\<close> over one group of hex digits: the number of digits
  read and their value, or \<open>None\<close> for a fifth digit or a value above \<^verbatim>\<open>0xffff\<close>.
\<close>

fun hex_group :: "string \<Rightarrow> nat \<Rightarrow> nat \<Rightarrow> (nat \<times> nat) option" where
  "hex_group [] off acc = Some (off, acc)"
| "hex_group (c # cs) off acc =
     (case hex_digit c of
        None \<Rightarrow> Some (off, acc)
      | Some d \<Rightarrow>
          let acc' = acc * 16 + d in
          if off > 3 then None
          else if acc' > 65535 then None
          else hex_group cs (off + 1) acc')"

text \<open>
  The outer loop of \<^verbatim>\<open>parseIPv6\<close>. \<open>ip\<close> holds the bytes written so far (its length is
  the source's index \<^verbatim>\<open>i\<close>), \<open>ellipsis\<close> the position of \<^verbatim>\<open>::\<close> if one was seen. The
  result is the state on leaving the loop: the unread rest, the bytes and the ellipsis.
\<close>

function parseIPv6_loop ::
  "string \<Rightarrow> nat list \<Rightarrow> nat option \<Rightarrow> (string \<times> nat list \<times> nat option) option" where
  "parseIPv6_loop s ip ellipsis =
     (if length ip < 16 then
        (case hex_group s 0 0 of
           None \<Rightarrow> None
         | Some (off, acc) \<Rightarrow>
             if off = 0 then None
             else if off < length s \<and> s ! off = CHR ''.'' then
               (if ellipsis = None \<and> length ip \<noteq> 12 then None
                else if length ip + 4 > 16 then None
                else (case parseIPv4Fields s None 0 0 [] of
                        None \<Rightarrow> None
                      | Some fields \<Rightarrow> Some ([], ip @ fields, ellipsis)))
             else
               let ip' = ip @ [acc div 256, acc mod 256];
                   s1 = drop off s
               in if s1 = [] then Some (s1, ip', ellipsis)
                  else if hd s1 \<noteq> CHR '':'' then None
                  else if length s1 = 1 then None
                  else let s2 = tl s1 in
                       if hd s2 = CHR '':'' then
                         (if ellipsis \<noteq> None then None
                          else let s3 = tl s2 in
                               if s3 = [] then Some (s3, ip', Some (length ip'))
                               else parseIPv6_loop s3 ip' (Some (length ip')))
                       else parseIPv6_loop s2 ip' ellipsis)
      else Some (s, ip, ellipsis))"
  by pat_completeness auto
termination
  by (relation "measure (\<lambda>(s, ip, ellipsis). 16 - length ip)") auto

declare parseIPv6_loop.simps [simp del]

datatype Addr = Addr4 "nat list" | Addr6 "nat list" string

definition parseIPv4 :: "string \<Rightarrow> Addr option" where
  "parseIPv4 s = map_option Addr4 (parseIPv4Fields s None 0 0 [])"

text \<open>
  \<^verbatim>\<open>parseIPv6\<close>, in the order of the source: the zone after the first \<^verbatim>\<open>%\<close> is
  split off (an empty zone is an error); a leading \<^verbatim>\<open>::\<close> is consumed; the loop runs;
  the whole string must have been read, and the ellipsis is expanded to the missing zero
  bytes. \<open>finish_ipv6\<close> is the part after the loop, \<open>parseIPv6_body\<close> the part after
  the zone has been split off.
\<close>

definition finish_ipv6 :: "string \<times> nat list \<times> nat option \<Rightarrow> nat list option" where
  "finish_ipv6 r =
     (case r of (rest, ip, ell) \<Rightarrow>
        if rest \<noteq> [] then None
        else if length ip < 16 then
          (case ell of
             None \<Rightarrow> None
           | Some e \<Rightarrow> Some (take e ip @ replicate (16 - length ip) 0 @ drop e ip))
        else if ell \<noteq> None then None
        else Some ip)"

definition parseIPv6_body :: "string \<Rightarrow> nat list option" where
  "parseIPv6_body s0 =
     (let lead = (length s0 \<ge> 2 \<and> s0 ! 0 = CHR '':'' \<and> s0 ! 1 = CHR '':'');
          s = (if lead then drop 2 s0 else s0);
          ellipsis = (if lead then Some 0 else None)
      in if lead \<and> s = [] then Some [0, 0, 0, 0, 0, 0, 0, 0, 0, 0, 0, 0, 0, 0, 0, 0]
         else (case parseIPv6_loop s [] ellipsis of
                 None \<Rightarrow> None
               | Some r \<Rightarrow> finish_ipv6 r))"

definition parseIPv6 :: "string \<Rightarrow> Addr option" where
  "parseIPv6 inp =
     (let has_zone = (CHR ''%'' \<in> set inp);
          s0 = takeWhile (\<lambda>c. c \<noteq> CHR ''%'') inp;
          zone = (if has_zone then tl (dropWhile (\<lambda>c. c \<noteq> CHR ''%'') inp) else [])
      in if has_zone \<and> zone = [] then None
         else map_option (\<lambda>ip. Addr6 ip zone) (parseIPv6_body s0))"

text \<open>\<^verbatim>\<open>netip.ParseAddr\<close> dispatches on the first of \<^verbatim>\<open>.\<close>, \<^verbatim>\<open>:\<close> and \<^verbatim>\<open>%\<close> in the string.\<close>

definition ParseAddr :: "string \<Rightarrow> Addr option" where
  "ParseAddr s =
     (case find (\<lambda>c. c = CHR ''.'' \<or> c = CHR '':'' \<or> c = CHR ''%'') s of
        None \<Rightarrow> None
      | Some c \<Rightarrow>
          if c = CHR ''.'' then parseIPv4 s
          else if c = CHR '':'' then parseIPv6 s
          else None)"

text \<open>
  \<^verbatim>\<open>net.ParseIP\<close>: \<open>None\<close> is Go's \<^verbatim>\<open>nil\<close>. The result is the 16-byte form; an IPv4
  address is returned IPv4-mapped (prefix \<^verbatim>\<open>00 .. 00 ff ff\<close>).
\<close>

definition ParseIP :: "string \<Rightarrow> nat list option" where
  "ParseIP s =
     (case ParseAddr s of
        None \<Rightarrow> None
      | Some (Addr4 fields) \<Rightarrow> Some ([0, 0, 0, 0, 0, 0, 0, 0, 0, 0, 255, 255] @ fields)
      | Some (Addr6 ip zone) \<Rightarrow> if zone \<noteq> [] then None else Some ip)"

definition To4 :: "nat list \<Rightarrow> nat list option" where
  "To4 ip =
     (if length ip = 4 then Some ip
      else if length ip = 16 \<and> list_all (\<lambda>b. b = 0) (take 10 ip) \<and> ip ! 10 = 255 \<and> ip ! 11 = 255
      then Some (drop 12 ip)
      else None)"

text \<open>How the program reads an address string: \<^verbatim>\<open>ParseIP\<close>, then \<^verbatim>\<open>To4\<close>.\<close>

datatype family = IPv4 | IPv6

definition ip_family :: "string \<Rightarrow> family option" where
  "ip_family s =
     (case ParseIP s of
        None \<Rightarrow> None
      | Some netIP \<Rightarrow> if To4 netIP \<noteq> None then Some IPv4 else Some IPv6)"

subsection \<open>\<^verbatim>\<open>encoding/json\<close>: marshalling a DNS record\<close>

text \<open>
  \<^verbatim>\<open>json.Marshal\<close> writes a string between double quotes and escapes the double
  quote, the backslash, the control characters, \<^verbatim>\<open><\<close>, \<^verbatim>\<open>>\<close> and \<^verbatim>\<open>&\<close>, every byte
  that is not valid UTF-8 (as the replacement rune U+FFFD) and the runes U+2028 and U+2029.
\<close>

definition dquote :: char where
  "dquote = CHR 0x22"

definition backslash :: char where
  "backslash = CHR 0x5C"

definition htmlSafe :: "char \<Rightarrow> bool" where
  "htmlSafe c =
     (32 \<le> byte c \<and> byte c < 128 \<and> c \<noteq> dquote \<and> c \<noteq> backslash \<and>
      c \<noteq> CHR ''&'' \<and> c \<noteq> CHR ''<'' \<and> c \<noteq> CHR ''>'')"

definition hex_char :: "nat \<Rightarrow> char" where
  "hex_char n = ''0123456789abcdef'' ! n"

definition in_range :: "char \<Rightarrow> nat \<Rightarrow> nat \<Rightarrow> bool" where
  "in_range c lo hi = (lo \<le> byte c \<and> byte c \<le> hi)"

text \<open>
  \<^verbatim>\<open>utf8.DecodeRuneInString\<close>, as far as the encoder uses it: the width of the rune a
  string starts with, 0 when the first byte starts no valid encoding.
\<close>

definition utf8_width :: "string \<Rightarrow> nat" where
  "utf8_width s =
     (case s of
        [] \<Rightarrow> 0
      | b0 # r \<Rightarrow>
          let x = byte b0;
              tail_ok = (\<lambda>k lo hi. length r \<ge> k \<and> in_range (r ! 0) lo hi \<and>
                           list_all (\<lambda>c. in_range c 0x80 0xBF) (take (k - 1) (drop 1 r)))
          in if x < 0x80 then 1
             else if 0xC2 \<le> x \<and> x \<le> 0xDF then (if tail_ok 1 0x80 0xBF then 2 else 0)
             else if x = 0xE0 then (if tail_ok 2 0xA0 0xBF then 3 else 0)
             else if x = 0xED then (if tail_ok 2 0x80 0x9F then 3 else 0)
             else if 0xE1 \<le> x \<and> x \<le> 0xEF then (if tail_ok 2 0x80 0xBF then 3 else 0)
             else if x = 0xF0 then (if tail_ok 3 0x90 0xBF then 4 else 0)
             else if 0xF1 \<le> x \<and> x \<le> 0xF3 then (if tail_ok 3 0x80 0xBF then 4 else 0)
             else if x = 0xF4 then (if tail_ok 3 0x80 0x8F then 4 else 0)
             else 0)"

text \<open>The body of the encoder's \<^verbatim>\<open>appendString\<close>, between the quotes.\<close>

function escape_string :: "string \<Rightarrow> string" where
  "escape_string [] = []"
| "escape_string (b # bs) =
     (if byte b < 0x80 then
        (if htmlSafe b then b # escape_string bs
         else if b = backslash \<or> b = dquote then backslash # b # escape_string bs
         else if byte b = 8 then backslash # CHR ''b'' # escape_string bs
         else if byte b = 12 then backslash # CHR ''f'' # escape_string bs
         else if byte b = 10 then backslash # CHR ''n'' # escape_string bs
         else if byte b = 13 then backslash # CHR ''r'' # escape_string bs
         else if byte b = 9 then backslash # CHR ''t'' # escape_string bs
         else backslash # CHR ''u'' # CHR ''0'' # CHR ''0'' #
              hex_char (byte b div 16) # hex_char (byte b mod 16) # escape_string bs)
      else
        (let size = utf8_width (b # bs) in
         if size = 0 then backslash # ''ufffd'' @ escape_string bs
         else if byte b = 0xE2 \<and> byte (bs ! 0) = 0x80 \<and> (byte (bs ! 1) = 0xA8 \<or> byte (bs ! 1) = 0xA9)
           then backslash # ''u202'' @ hex_char (byte (bs ! 1) mod 16) # escape_string (drop size (b # bs))
         else take size (b # bs) @ escape_string (drop size (b # bs))))"
  by pat_completeness auto
termination
  by (relation "measure length") auto

declare escape_string.simps [simp del]

definition appendString :: "string \<Rightarrow> string" where
  "appendString src = dquote # escape_string src @ [dquote]"

text \<open>
  \<^verbatim>\<open>type DNSRecord struct { Host string `json:"host,omitempty"`; TTL int `json:"ttl"` }\<close>:
  the \<^verbatim>\<open>host\<close> member is left out when \<^verbatim>\<open>Host\<close> is the empty string. Marshalling
  this struct cannot fail.
\<close>

record DNSRecord =
  Host :: string
  TTL :: int

definition Marshal :: "DNSRecord \<Rightarrow> string" where
  "Marshal r =
     ''{'' @
     (if Host r \<noteq> [] then appendString ''host'' @ '':'' @ appendString (Host r) @ '','' else []) @
     appendString ''ttl'' @ '':'' @ Itoa (TTL r) @ ''}''"

section \<open>Configuration\<close>

text \<open>
  The fields of \<^verbatim>\<open>Config\<close> that the record synthesis and the discovery read.
  \<^verbatim>\<open>LoadConfig\<close> reads the environment (\<^verbatim>\<open>os.Getenv\<close> gives the empty string for an
  unset variable) and, for the DNS target, the mounted host name file (\<open>None\<close> when it
  cannot be read). \<^verbatim>\<open>log.Fatal\<close> and \<^verbatim>\<open>panic\<close> end the process: the result is \<open>None\<close>.
\<close>

record Config =
  EtcdPrefix :: string
  DNSTarget :: string
  RecordTTL :: int
  Domain :: string
  AgentMode :: string
  ProxmoxInterface :: string
  ProxmoxMultiIPv4 :: string

definition getEnv :: "(string \<Rightarrow> string) \<Rightarrow> string \<Rightarrow> string \<Rightarrow> string" where
  "getEnv env key defaultValue = (if env key \<noteq> [] then env key else defaultValue)"

definition detectDNSTarget :: "(string \<Rightarrow> string) \<Rightarrow> string option \<Rightarrow> string option" where
  "detectDNSTarget env hostfile =
     (let target = getEnv env ''DNS_TARGET'' [] in
      if target \<noteq> [] then Some target
      else (case hostfile of
              None \<Rightarrow> None
            | Some data \<Rightarrow>
                let hostname = TrimSpace data in
                if hostname = [] then None
                else if Contains hostname ''.'' then Some hostname
                else let domain = getEnv env ''DOMAIN'' [] in
                     if domain = [] then None
                     else Some (hostname @ ''.'' @ domain)))"

definition LoadConfig :: "(string \<Rightarrow> string) \<Rightarrow> string option \<Rightarrow> Config option" where
  "LoadConfig env hostfile =
     (case detectDNSTarget env hostfile of
        None \<Rightarrow> None
      | Some target \<Rightarrow>
          Some \<lparr> EtcdPrefix = getEnv env ''ETCD_PREFIX'' ''/skydns'',
                 DNSTarget = target,
                 RecordTTL = 300,
                 Domain = getEnv env ''DOMAIN'' [],
                 AgentMode = getEnv env ''AGENT_MODE'' ''docker'',
                 ProxmoxInterface = getEnv env ''PROXMOX_INTERFACE'' ''eth0'',
                 ProxmoxMultiIPv4 = getEnv env ''PROXMOX_MULTI_IPV4'' ''first'' \<rparr>)"

section \<open>The record store\<close>

text \<open>
  The etcd client is an external collaborator: \<^verbatim>\<open>Put\<close> stores a value under a key or
  fails. The state holds the store's contents, the list of the \<^verbatim>\<open>Put\<close> calls made so far
  (each attempted key and value, in order) and the outcomes of the coming calls
  (\<open>True\<close>: the call fails; after the end of the list every call succeeds).
\<close>

datatype error = ApiError | Wrapped string error

record etcd =
  kv :: "string \<rightharpoonup> string"
  put_log :: "(string \<times> string) list"
  put_faults :: "bool list"

definition Put :: "etcd \<Rightarrow> string \<Rightarrow> string \<Rightarrow> error option \<times> etcd" where
  "Put st key val =
     (let failing = (put_faults st \<noteq> [] \<and> hd (put_faults st));
          st' = st\<lparr> put_log := put_log st @ [(key, val)], put_faults := tl (put_faults st) \<rparr>
      in if failing then (Some ApiError, st')
         else (None, st'\<lparr> kv := (kv st)(key \<mapsto> val) \<rparr>))"

section \<open>Key paths and record synthesis\<close>

text \<open>
  The in-place reversal of the label slice:
  \<^verbatim>\<open>for i, j := 0, len(parts)-1; i < j; i, j = i+1, j-1 { parts[i], parts[j] = parts[j], parts[i] }\<close>.
\<close>

function swap_loop :: "'a list \<Rightarrow> nat \<Rightarrow> nat \<Rightarrow> 'a list" where
  "swap_loop parts i j =
     (if i < j then swap_loop (parts[i := parts ! j, j := parts ! i]) (i + 1) (j - 1)
      else parts)"
  by pat_completeness auto
termination
  by (relation "measure (\<lambda>(parts, i, j). j - i)") auto

declare swap_loop.simps [simp del]

definition reverse_parts :: "'a list \<Rightarrow> 'a list" where
  "reverse_parts parts = swap_loop parts 0 (length parts - 1)"

text \<open>
  The key both \<^verbatim>\<open>CreateDNSRecord\<close> and \<^verbatim>\<open>CreateDNSRecords\<close> build first:
  \<^verbatim>\<open>fmt.Sprintf("%s/%s", ec.config.EtcdPrefix, strings.Join(parts, "/"))\<close>.
\<close>

definition key_path :: "string \<Rightarrow> string \<Rightarrow> string" where
  "key_path pfx hostname =
     pfx @ ''/'' @ Join (reverse_parts (Split hostname CHR ''.'')) ''/''"

text \<open>
  \<^verbatim>\<open>CreateDNSRecord\<close> (the Docker path): one record at the key path, pointing at the
  configured target. The two branches on the target build the same record; they differ
  in the logged record type only.
\<close>

definition CreateDNSRecord :: "Config \<Rightarrow> etcd \<Rightarrow> string \<Rightarrow> error option \<times> etcd" where
  "CreateDNSRecord config st hostname =
     (let key = key_path (EtcdPrefix config) hostname;
          target = DNSTarget config;
          record = (if ParseIP target \<noteq> None
                    then \<lparr> Host = target, TTL = RecordTTL config \<rparr>
                    else \<lparr> Host = target, TTL = RecordTTL config \<rparr>);
          recordJSON = Marshal record
      in case Put st key recordJSON of
           (Some err, st') \<Rightarrow> (Some (Wrapped (''failed to create DNS record for '' @ hostname) err), st')
         | (None, st') \<Rightarrow> (None, st'))"

text \<open>
  \<^verbatim>\<open>CreateDNSRecords\<close> (the Proxmox path): the loop over the addresses, with the two
  counters. An address that does not parse is passed over; a failing \<^verbatim>\<open>Put\<close> returns
  at once.
\<close>

fun records_loop ::
  "Config \<Rightarrow> string \<Rightarrow> string \<Rightarrow> etcd \<Rightarrow> nat \<Rightarrow> nat \<Rightarrow> string list \<Rightarrow> error option \<times> etcd" where
  "records_loop config hostname basePath st ipv4Count ipv6Count [] = (None, st)"
| "records_loop config hostname basePath st ipv4Count ipv6Count (ip # ips) =
     (case ParseIP ip of
        None \<Rightarrow> records_loop config hostname basePath st ipv4Count ipv6Count ips
      | Some netIP \<Rightarrow>
          let is4 = (To4 netIP \<noteq> None);
              ipv4Count' = (if is4 then ipv4Count + 1 else ipv4Count);
              ipv6Count' = (if is4 then ipv6Count else ipv6Count + 1);
              key = (if is4 then basePath @ ''/a'' @ Itoa (int ipv4Count')
                     else basePath @ ''/aaaa'' @ Itoa (int ipv6Count'));
              recordType = (if is4 then ''A'' else ''AAAA'');
              recordJSON = Marshal \<lparr> Host = ip, TTL = RecordTTL config \<rparr>
          in case Put st key recordJSON of
               (Some err, st') \<Rightarrow>
                 (Some (Wrapped (''failed to create '' @ recordType @ '' record for '' @ hostname) err), st')
             | (None, st') \<Rightarrow>
                 records_loop config hostname basePath st' ipv4Count' ipv6Count' ips)"

definition CreateDNSRecords :: "Config \<Rightarrow> etcd \<Rightarrow> string \<Rightarrow> string list \<Rightarrow> error option \<times> etcd" where
  "CreateDNSRecords config st hostname ips =
     records_loop config hostname (key_path (EtcdPrefix config) hostname) st 0 0 ips"

section \<open>Docker discovery\<close>

text \<open>
  \<^verbatim>\<open>extractHostsFromLabels\<close> searches the value of every router rule label with the
  regular expression \<^verbatim>\<open>Host\(\s*`([^`]+)`\s*\)\<close>. \<open>match_host\<close> is a match of the
  expression at the start of a string: the captured argument and the text after the
  match. No step of the expression has a choice: \<^verbatim>\<open>\s*\<close> is followed by a character
  that is no space, \<^verbatim>\<open>[^`]+\<close> by the backtick.
\<close>

definition backtick :: char where
  "backtick = CHR 0x60"

definition regex_space :: "char \<Rightarrow> bool" where
  "regex_space c = (byte c = 9 \<or> byte c = 10 \<or> byte c = 12 \<or> byte c = 13 \<or> byte c = 32)"

definition match_host :: "string \<Rightarrow> (string \<times> string) option" where
  "match_host s =
     (if HasPrefix s ''Host('' then
        let s1 = dropWhile regex_space (drop 5 s) in
        if s1 \<noteq> [] \<and> hd s1 = backtick then
          let arg = takeWhile (\<lambda>c. c \<noteq> backtick) (tl s1);
              s2 = dropWhile (\<lambda>c. c \<noteq> backtick) (tl s1)
          in if arg \<noteq> [] \<and> s2 \<noteq> [] then
               let s3 = dropWhile regex_space (tl s2) in
               if s3 \<noteq> [] \<and> hd s3 = CHR '')'' then Some (arg, tl s3) else None
             else None
        else None
      else None)"

text \<open>
  \<^verbatim>\<open>FindAllStringSubmatch(value, -1)\<close>: the leftmost match, then the matches of the
  text after it; the capture group of each.
\<close>

function FindAllHost :: "string \<Rightarrow> string list" where
  "FindAllHost s =
     (case match_host s of
        Some (arg, rest) \<Rightarrow> arg # FindAllHost rest
      | None \<Rightarrow> (case s of [] \<Rightarrow> [] | c # cs \<Rightarrow> FindAllHost cs))"
  by pat_completeness auto
termination
proof (relation "measure length")
  show "wf (measure length)" by simp
next
  fix s :: string and x2 arg rest
  assume m: "match_host s = Some x2" and x2: "(arg, rest) = x2"
  have dw: "\<And>P (xs :: string). length (dropWhile P xs) \<le> length xs"
    by (rule length_dropWhile_le)
  have le: "\<And>P (xs :: string). length (tl (dropWhile P xs)) \<le> length xs"
  proof -
    fix P and xs :: string
    have "length (tl (dropWhile P xs)) \<le> length (dropWhile P xs)" by simp
    then show "length (tl (dropWhile P xs)) \<le> length xs" using dw[of P xs] by (rule le_trans)
  qed
  from m x2 have "HasPrefix s ''Host(''" and
    rest: "rest = tl (dropWhile regex_space (tl (dropWhile (\<lambda>c. c \<noteq> backtick)
                   (tl (dropWhile regex_space (drop 5 s))))))"
    by (auto simp: match_host_def Let_def split: if_splits)
  then have "length s \<ge> 5"
    by (auto simp: HasPrefix_def dest: arg_cong[where f=length])
  moreover have "length rest \<le> length (drop 5 s)"
  proof -
    have "length rest \<le> length (tl (dropWhile (\<lambda>c. c \<noteq> backtick) (tl (dropWhile regex_space (drop 5 s)))))"
      unfolding rest by (rule le)
    also have "\<dots> \<le> length (tl (dropWhile regex_space (drop 5 s)))" by (rule le)
    also have "\<dots> \<le> length (drop 5 s)" by (rule le)
    finally show ?thesis .
  qed
  ultimately show "(rest, s) \<in> measure length" by simp
next
  fix s :: string and c cs
  assume "s = c # cs"
  then show "(cs, s) \<in> measure length" by simp
qed

declare FindAllHost.simps [simp del]

text \<open>
  Go iterates over a map in an unspecified order: the labels are the list of the map's
  entries in the order one run meets them.
\<close>

definition extractHostsFromLabels :: "(string \<times> string) list \<Rightarrow> string list" where
  "extractHostsFromLabels labels =
     concat (map (\<lambda>(key, val).
        if Contains key ''traefik.http.routers.'' \<and> Contains key ''.rule''
        then FindAllHost val else []) labels)"

record Container =
  ID :: string
  Labels :: "(string \<times> string) list"

text \<open>The loop over the hosts of one container: a failed write is logged and passed over.\<close>

fun create_host_records :: "Config \<Rightarrow> etcd \<Rightarrow> string list \<Rightarrow> etcd" where
  "create_host_records config st [] = st"
| "create_host_records config st (host # hosts) =
     create_host_records config (snd (CreateDNSRecord config st host)) hosts"

fun sync_containers :: "Config \<Rightarrow> etcd \<Rightarrow> Container list \<Rightarrow> etcd" where
  "sync_containers config st [] = st"
| "sync_containers config st (c # cs) =
     (let hosts = extractHostsFromLabels (Labels c) in
      if length hosts > 0 then sync_containers config (create_host_records config st hosts) cs
      else sync_containers config st cs)"

text \<open>
  \<^verbatim>\<open>SyncExistingContainers\<close>; the second argument is the answer of
  \<^verbatim>\<open>ContainerList\<close> (\<open>None\<close>: the call failed).
\<close>

definition SyncExistingContainers :: "Config \<Rightarrow> Container list option \<Rightarrow> etcd \<Rightarrow> error option \<times> etcd" where
  "SyncExistingContainers config listed st =
     (case listed of
        None \<Rightarrow> (Some (Wrapped ''failed to list containers'' ApiError), st)
      | Some containers \<Rightarrow> (None, sync_containers config st containers))"

section \<open>Proxmox discovery\<close>

text \<open>
  The library's view of a guest: \<^verbatim>\<open>proxmox.VirtualMachine\<close> and
  \<^verbatim>\<open>proxmox.Container\<close> carry a name, an id, a status and the tags as one string
  with \<^verbatim>\<open>;\<close> between the entries, and a pointer to the guest's configuration, which
  holds the tag string once more. The configuration is loaded when a single guest is
  fetched; the entries of the listings \<^verbatim>\<open>node.VirtualMachines\<close> and
  \<^verbatim>\<open>node.Containers\<close>, which are what \<^verbatim>\<open>syncAllResources\<close> hands to
  \<^verbatim>\<open>processVM\<close> and \<^verbatim>\<open>processContainer\<close>, come without it. \<open>ConfigTags\<close> is the tag
  string of the configuration, \<open>None\<close> when the configuration is not loaded.

  \<^verbatim>\<open>HasTag\<close> is the library's test: it reads the tags of the configuration, not the
  field \<^verbatim>\<open>Tags\<close> that the program splits for the other tags, and finds no tag when the
  configuration is not loaded.
\<close>

record Guest =
  Name :: string
  VMID :: nat
  Status :: string
  Tags :: string
  ConfigTags :: "string option"

definition HasTag :: "Guest \<Rightarrow> string \<Rightarrow> bool" where
  "HasTag g tag =
     (case ConfigTags g of
        None \<Rightarrow> False
      | Some tags \<Rightarrow> tags \<noteq> [] \<and> tag \<in> set (Split tags CHR '';''))"

record ClusterResource =
  res_Name :: string
  res_Type :: string
  res_Status :: string
  res_VMID :: nat
  res_Node :: string

record AgentNetworkIface =
  agent_Name :: string
  IPAddresses :: "string list"

record ContainerInterface =
  iface_Name :: string
  Inet :: string
  Inet6 :: string

text \<open>
  The answers of the Proxmox API for a node name and a guest id: whether the node and
  the guest can be fetched, and the interface lists (\<open>None\<close>: the query failed).
\<close>

record pve_api =
  Node :: "string \<Rightarrow> bool"
  VirtualMachine :: "string \<Rightarrow> nat \<Rightarrow> bool"
  AgentGetNetworkIFaces :: "string \<Rightarrow> nat \<Rightarrow> AgentNetworkIface list option"
  LxcContainer :: "string \<Rightarrow> nat \<Rightarrow> bool"
  Interfaces :: "string \<Rightarrow> nat \<Rightarrow> ContainerInterface list option"

fun getTagValue :: "string list \<Rightarrow> string \<Rightarrow> string" where
  "getTagValue [] pfx = []"
| "getTagValue (t # ts) pfx =
     (let t' = TrimSpace t in
      if HasPrefix t' (pfx @ '':'') then TrimPrefix t' (pfx @ '':'')
      else getTagValue ts pfx)"

definition generateHostname :: "Config \<Rightarrow> string \<Rightarrow> string" where
  "generateHostname config vmName =
     (if \<not> Contains vmName ''.'' \<and> Domain config \<noteq> [] then vmName @ ''.'' @ Domain config
      else vmName)"

text \<open>The loop of \<^verbatim>\<open>applyMultiIPv4Strategy\<close> for every strategy but \<^verbatim>\<open>all\<close>.\<close>

fun first_ipv4_loop :: "string list \<Rightarrow> string list \<Rightarrow> bool \<Rightarrow> string list" where
  "first_ipv4_loop [] result foundIPv4 = result"
| "first_ipv4_loop (ip # ips) result foundIPv4 =
     (case ParseIP ip of
        None \<Rightarrow> first_ipv4_loop ips result foundIPv4
      | Some netIP \<Rightarrow>
          if To4 netIP \<noteq> None then
            (if \<not> foundIPv4 then first_ipv4_loop ips (result @ [ip]) True
             else first_ipv4_loop ips result foundIPv4)
          else first_ipv4_loop ips (result @ [ip]) foundIPv4)"

definition applyMultiIPv4Strategy :: "Config \<Rightarrow> string list \<Rightarrow> string list" where
  "applyMultiIPv4Strategy config ips =
     (if ProxmoxMultiIPv4 config = ''all'' then ips else first_ipv4_loop ips [] False)"

definition extractIPsFromConfig :: "ClusterResource \<Rightarrow> error + string list" where
  "extractIPsFromConfig resource = Inr []"

text \<open>The addresses the two loops of \<^verbatim>\<open>extractIPsFromInterface\<close> collect.\<close>

definition agent_addresses :: "AgentNetworkIface list \<Rightarrow> string \<Rightarrow> string list" where
  "agent_addresses interfaces interfaceName =
     concat (map (\<lambda>iface.
        if agent_Name iface = interfaceName
        then filter (\<lambda>a. a \<noteq> ''127.0.0.1'' \<and> a \<noteq> ''::1'') (IPAddresses iface)
        else []) interfaces)"

definition container_addresses :: "ContainerInterface list \<Rightarrow> string \<Rightarrow> string list" where
  "container_addresses interfaces interfaceName =
     concat (map (\<lambda>iface.
        if iface_Name iface = interfaceName then
          (if Inet iface \<noteq> [] \<and> Inet iface \<noteq> ''127.0.0.1/8''
           then [hd (Split (Inet iface) CHR ''/'')] else []) @
          (if Inet6 iface \<noteq> [] \<and> \<not> HasPrefix (Inet6 iface) ''::1/'' \<and> \<not> HasPrefix (Inet6 iface) ''fe80::''
           then [hd (Split (Inet6 iface) CHR ''/'')] else [])
        else []) interfaces)"

definition extractIPsFromInterface ::
  "Config \<Rightarrow> pve_api \<Rightarrow> ClusterResource \<Rightarrow> string \<Rightarrow> error + string list" where
  "extractIPsFromInterface config api resource interfaceName =
     (if \<not> Node api (res_Node resource) then Inl ApiError
      else if res_Type resource = ''qemu'' then
        (if \<not> VirtualMachine api (res_Node resource) (res_VMID resource) then Inl ApiError
         else (case AgentGetNetworkIFaces api (res_Node resource) (res_VMID resource) of
                 None \<Rightarrow> extractIPsFromConfig resource
               | Some interfaces \<Rightarrow>
                   Inr (applyMultiIPv4Strategy config (agent_addresses interfaces interfaceName))))
      else if res_Type resource = ''lxc'' then
        (if \<not> LxcContainer api (res_Node resource) (res_VMID resource) then Inl ApiError
         else (case Interfaces api (res_Node resource) (res_VMID resource) of
                 None \<Rightarrow> extractIPsFromConfig resource
               | Some interfaces \<Rightarrow>
                   Inr (applyMultiIPv4Strategy config (container_addresses interfaces interfaceName))))
      else Inr (applyMultiIPv4Strategy config []))"

definition getResourceIPs ::
  "Config \<Rightarrow> pve_api \<Rightarrow> ClusterResource \<Rightarrow> string list \<Rightarrow> error + string list" where
  "getResourceIPs config api resource tags =
     (let specificIPs = getTagValue tags ''dnsherpa-ip'' in
      if specificIPs \<noteq> [] then
        Inr (filter (\<lambda>ip. ParseIP ip \<noteq> None) (map TrimSpace (Split specificIPs CHR '','')))
      else
        let tagged = getTagValue tags ''dnsherpa-interface'';
            interfaceName = (if tagged = [] then ProxmoxInterface config else tagged)
        in extractIPsFromInterface config api resource interfaceName)"

text \<open>
  \<^verbatim>\<open>processVM\<close> and \<^verbatim>\<open>processContainer\<close>. The guest carries the same
  fields in both; the functions differ in the resource type they hand on and in the
  wording of the error.
\<close>

definition processVM :: "Config \<Rightarrow> pve_api \<Rightarrow> etcd \<Rightarrow> Guest \<Rightarrow> string \<Rightarrow> error option \<times> etcd" where
  "processVM config api st vm nodeName =
     (if HasTag vm ''dnsherpa-skip'' then (None, st)
      else
        let hostname = generateHostname config (Name vm);
            vmTags = (if Tags vm \<noteq> [] then Split (Tags vm) CHR '';'' else []);
            fakeResource = \<lparr> res_Name = Name vm, res_Type = ''qemu'', res_Status = Status vm,
                             res_VMID = VMID vm, res_Node = nodeName \<rparr>
        in case getResourceIPs config api fakeResource vmTags of
             Inl err \<Rightarrow> (Some (Wrapped (''failed to get IPs for VM '' @ Name vm) err), st)
           | Inr ips \<Rightarrow>
               if length ips = 0 then (None, st)
               else CreateDNSRecords config st hostname ips)"

definition processContainer :: "Config \<Rightarrow> pve_api \<Rightarrow> etcd \<Rightarrow> Guest \<Rightarrow> string \<Rightarrow> error option \<times> etcd" where
  "processContainer config api st container nodeName =
     (if HasTag container ''dnsherpa-skip'' then (None, st)
      else
        let hostname = generateHostname config (Name container);
            containerTags = (if Tags container \<noteq> [] then Split (Tags container) CHR '';'' else []);
            fakeResource = \<lparr> res_Name = Name container, res_Type = ''lxc'', res_Status = Status container,
                             res_VMID = VMID container, res_Node = nodeName \<rparr>
        in case getResourceIPs config api fakeResource containerTags of
             Inl err \<Rightarrow> (Some (Wrapped (''failed to get IPs for container '' @ Name container) err), st)
           | Inr ips \<Rightarrow>
               if length ips = 0 then (None, st)
               else CreateDNSRecords config st hostname ips)"

section \<open>The specification's reading of the key layout\<close>

text \<open>
  Reading a key back, in the specification's words: the labels of the path under the
  prefix, reversed again and joined with dots.
\<close>

definition path_hostname :: "string \<Rightarrow> string \<Rightarrow> string" where
  "path_hostname pfx key = Join (rev (Split (drop (length pfx + 1) key) CHR ''/'')) ''.''"

text \<open>
  The leaf keys of a host with several addresses, in the specification's words: the
  \<open>j\<close>-th address that parses gets \<^verbatim>\<open>a<N>\<close> or \<^verbatim>\<open>aaaa<N>\<close>, where \<open>N\<close> counts the
  addresses of its family up to and including itself, in resolution order.
\<close>

definition expected_keys :: "string \<Rightarrow> string list \<Rightarrow> string list" where
  "expected_keys base ips =
     (let valid = filter (\<lambda>ip. ip_family ip \<noteq> None) ips in
      map (\<lambda>j. base @ (if ip_family (valid ! j) = Some IPv4 then ''/a'' else ''/aaaa'') @
                Itoa (int (length (filter (\<lambda>x. ip_family x = ip_family (valid ! j))
                                     (take (Suc j) valid)))))
          [0..<length valid])"

text \<open>The \<^verbatim>\<open>Put\<close> calls made between two states of the store, and their effect.\<close>

definition writes_of :: "etcd \<Rightarrow> etcd \<Rightarrow> (string \<times> string) list" where
  "writes_of st st' = drop (length (put_log st)) (put_log st')"

definition store_all :: "(string \<rightharpoonup> string) \<Rightarrow> (string \<times> string) list \<Rightarrow> (string \<rightharpoonup> string)" where
  "store_all m ps = foldl (\<lambda>m p. m(fst p \<mapsto> snd p)) m ps"

text \<open>
  The value of a record, in the specification's words: the JSON object with the host
  and the fixed TTL of 300. \<open>json_record\<close> takes the JSON literal of the host,
  \<open>record_json\<close> a target that is written between the quotes as it is.
\<close>

definition quoted :: "string \<Rightarrow> string" where
  "quoted s = dquote # s @ [dquote]"

definition json_record :: "string \<Rightarrow> string" where
  "json_record host_literal = ''{'' @ quoted ''host'' @ '':'' @ host_literal @ '','' @ quoted ''ttl'' @ '':300}''"

definition record_json :: "string \<Rightarrow> string" where
  "record_json target = json_record (quoted target)"

definition ttl_only_record :: string where
  "ttl_only_record = ''{'' @ quoted ''ttl'' @ '':300}''"

text \<open>A store in which no coming \<^verbatim>\<open>Put\<close> fails.\<close>

definition fault_free :: "etcd \<Rightarrow> etcd" where
  "fault_free st = st\<lparr> put_faults := [] \<rparr>"

section \<open>Concrete inputs\<close>

text \<open>
  An environment with a DNS target and a domain, the configuration \<^verbatim>\<open>LoadConfig\<close>
  builds from it, and a store that is empty and sound.
\<close>

definition example_env :: "string \<Rightarrow> string" where
  "example_env key =
     (if key = ''DNS_TARGET'' then ''traefik.home.lab''
      else if key = ''DOMAIN'' then ''home.lab'' else [])"

definition example_config :: Config where
  "example_config =
     \<lparr> EtcdPrefix = ''/skydns'', DNSTarget = ''traefik.home.lab'', RecordTTL = 300,
       Domain = ''home.lab'', AgentMode = ''docker'', ProxmoxInterface = ''eth0'',
       ProxmoxMultiIPv4 = ''first'' \<rparr>"

definition empty_store :: etcd where
  "empty_store = \<lparr> kv = Map.empty, put_log = [], put_faults = [] \<rparr>"

text \<open>
  A Proxmox API that answers every query: the guest agent of a VM reports a loopback
  interface and \<^verbatim>\<open>eth0\<close> with two IPv4 addresses, a link-local and two global IPv6
  addresses; a container has \<^verbatim>\<open>eth0\<close> with an IPv4 and a link-local IPv6 address.
\<close>

definition example_agent_ifaces :: "AgentNetworkIface list" where
  "example_agent_ifaces =
     [\<lparr> agent_Name = ''lo'', IPAddresses = [''127.0.0.1'', ''::1''] \<rparr>,
      \<lparr> agent_Name = ''eth0'',
        IPAddresses = [''10.0.0.1'', ''10.0.0.2'', ''fe80::1'', ''2001:db8::1'', ''2001:db8::2''] \<rparr>]"

definition example_lxc_ifaces :: "ContainerInterface list" where
  "example_lxc_ifaces =
     [\<lparr> iface_Name = ''lo'', Inet = ''127.0.0.1/8'', Inet6 = ''::1/128'' \<rparr>,
      \<lparr> iface_Name = ''eth0'', Inet = ''10.0.0.1/24'', Inet6 = ''fe80::1/64'' \<rparr>]"

definition example_api :: pve_api where
  "example_api =
     \<lparr> Node = (\<lambda>node. True),
       VirtualMachine = (\<lambda>node vmid. True),
       AgentGetNetworkIFaces = (\<lambda>node vmid. Some example_agent_ifaces),
       LxcContainer = (\<lambda>node vmid. True),
       Interfaces = (\<lambda>node vmid. Some example_lxc_ifaces) \<rparr>"

definition example_vm :: ClusterResource where
  "example_vm =
     \<lparr> res_Name = ''web'', res_Type = ''qemu'', res_Status = ''running'', res_VMID = 100,
       res_Node = ''pve'' \<rparr>"

definition example_ct :: ClusterResource where
  "example_ct =
     \<lparr> res_Name = ''db'', res_Type = ''lxc'', res_Status = ''running'', res_VMID = 101,
       res_Node = ''pve'' \<rparr>"

text \<open>
  A running guest tagged \<^verbatim>\<open>dnsherpa-skip\<close>, as an entry of a listing (its configuration
  is not loaded) and as a guest fetched with its configuration.
\<close>

definition example_guest :: Guest where
  "example_guest =
     \<lparr> Name = ''web'', VMID = 100, Status = ''running'',
       Tags = ''dnsherpa-skip;dnsherpa-ip:10.0.0.1'', ConfigTags = None \<rparr>"

definition loaded_guest :: Guest where
  "loaded_guest = example_guest\<lparr> ConfigTags := Some ''dnsherpa-skip;dnsherpa-ip:10.0.0.1'' \<rparr>"

text \<open>
  A running container with a router rule naming two hosts, and the same container with
  its label map met in another order.
\<close>

definition example_container :: Container where
  "example_container =
     \<lparr> ID = ''c0ffee'',
       Labels = [(''traefik.http.routers.web.rule'', ''Host(`a.com`) && Host(`b.com`)''),
                 (''traefik.enable'', ''true'')] \<rparr>"

definition example_container' :: Container where
  "example_container' =
     \<lparr> ID = ''c0ffee'',
       Labels = [(''traefik.enable'', ''true''),
                 (''traefik.http.routers.web.rule'', ''Host(`a.com`) && Host(`b.com`)'')] \<rparr>"

text \<open>A store whose next \<^verbatim>\<open>Put\<close> fails and whose later ones succeed.\<close>

definition failing_once_store :: etcd where
  "failing_once_store = \<lparr> kv = Map.empty, put_log = [], put_faults = [True] \<rparr>"

text \<open>A store whose second coming \<^verbatim>\<open>Put\<close> fails.\<close>

definition faulty_store :: etcd where
  "faulty_store = \<lparr> kv = Map.empty, put_log = [], put_faults = [False, True] \<rparr>"

section \<open>Auxiliary notions of the proofs\<close>

text \<open>The characters an address literal is made of.\<close>

definition ip_char :: "char \<Rightarrow> bool" where
  "ip_char c = (hex_digit c \<noteq> None \<or> c = CHR ''.'' \<or> c = CHR '':'')"

text \<open>
  The keys and values \<^verbatim>\<open>CreateDNSRecords\<close> hands to \<^verbatim>\<open>Put\<close> when no call fails, and a
  run of \<^verbatim>\<open>Put\<close> calls that stops at the first failure.
\<close>

fun planned_puts :: "Config \<Rightarrow> string \<Rightarrow> nat \<Rightarrow> nat \<Rightarrow> string list \<Rightarrow> (string \<times> string) list" where
  "planned_puts config basePath c4 c6 [] = []"
| "planned_puts config basePath c4 c6 (ip # ips) =
     (case ParseIP ip of
        None \<Rightarrow> planned_puts config basePath c4 c6 ips
      | Some netIP \<Rightarrow>
          if To4 netIP \<noteq> None
          then (basePath @ ''/a'' @ Itoa (int (c4 + 1)), Marshal \<lparr> Host = ip, TTL = RecordTTL config \<rparr>)
               # planned_puts config basePath (c4 + 1) c6 ips
          else (basePath @ ''/aaaa'' @ Itoa (int (c6 + 1)), Marshal \<lparr> Host = ip, TTL = RecordTTL config \<rparr>)
               # planned_puts config basePath c4 (c6 + 1) ips)"

fun run_puts :: "etcd \<Rightarrow> (string \<times> string) list \<Rightarrow> bool \<times> etcd" where
  "run_puts st [] = (True, st)"
| "run_puts st (p # ps) =
     (case Put st (fst p) (snd p) of
        (Some err, st') \<Rightarrow> (False, st')
      | (None, st') \<Rightarrow> run_puts st' ps)"

text \<open>
  What the loop of \<^verbatim>\<open>applyMultiIPv4Strategy\<close> keeps of a list, without the
  accumulator: \<open>found\<close> says whether an IPv4 address was kept before.
\<close>

fun keep_first :: "bool \<Rightarrow> string list \<Rightarrow> string list" where
  "keep_first found [] = []"
| "keep_first found (ip # ips) =
     (case ip_family ip of
        None \<Rightarrow> keep_first found ips
      | Some IPv4 \<Rightarrow> if found then keep_first found ips else ip # keep_first True ips
      | Some IPv6 \<Rightarrow> ip # keep_first found ips)"

text \<open>
  The record \<^verbatim>\<open>CreateDNSRecord\<close> writes for a host, and the hosts of a list of
  containers in the order the sync meets them.
\<close>

definition host_record :: "Config \<Rightarrow> string \<Rightarrow> string \<times> string" where
  "host_record config hostname =
     (key_path (EtcdPrefix config) hostname,
      Marshal \<lparr> Host = DNSTarget config, TTL = RecordTTL config \<rparr>)"

definition all_hosts :: "Container list \<Rightarrow> string list" where
  "all_hosts containers = concat (map (\<lambda>c. extractHostsFromLabels (Labels c)) containers)"

section \<open>Key paths\<close>

lemma length_swap_loop: "length (swap_loop xs i j) = length xs"
  by (induction xs i j rule: swap_loop.induct) (subst swap_loop.simps, simp)

lemma nth_swap_loop:
  "j < length xs \<Longrightarrow> k < length xs \<Longrightarrow>
   swap_loop xs i j ! k = (if i \<le> k \<and> k \<le> j then xs ! (i + j - k) else xs ! k)"
proof (induction xs i j arbitrary: k rule: swap_loop.induct)
  case (1 parts i j)
  show ?case
  proof (cases "i < j")
    case True
    let ?p = "parts[i := parts ! j, j := parts ! i]"
    have "swap_loop parts i j ! k = swap_loop ?p (i + 1) (j - 1) ! k"
      using True by (subst swap_loop.simps) simp
    also have "\<dots> = (if i + 1 \<le> k \<and> k \<le> j - 1 then ?p ! ((i + 1) + (j - 1) - k) else ?p ! k)"
      using "1.IH"[OF True, of k] "1.prems" True by simp
    also have "\<dots> = (if i \<le> k \<and> k \<le> j then parts ! (i + j - k) else parts ! k)"
      using "1.prems" True by (auto simp: nth_list_update)
    finally show ?thesis .
  next
    case False
    then show ?thesis
      using "1.prems" by (subst swap_loop.simps) (auto intro: arg_cong[where f="(!) parts"])
  qed
qed

lemma reverse_parts_rev: "reverse_parts xs = rev xs"
proof (cases "xs = []")
  case True
  then show ?thesis by (simp add: reverse_parts_def swap_loop.simps)
next
  case False
  then have j: "length xs - 1 < length xs" by (cases xs) auto
  show ?thesis
  proof (rule nth_equalityI)
    show "length (reverse_parts xs) = length (rev xs)"
      by (simp add: reverse_parts_def length_swap_loop)
  next
    fix k assume "k < length (reverse_parts xs)"
    then have k: "k < length xs" by (simp add: reverse_parts_def length_swap_loop)
    then have "k \<le> length xs - 1" by simp
    then show "reverse_parts xs ! k = rev xs ! k"
      using nth_swap_loop[OF j k, of 0] k by (simp add: reverse_parts_def rev_nth)
  qed
qed

lemma Split_nonempty: "Split s c \<noteq> []"
  by (induction s) (auto split: list.splits)

lemma Join_Split: "Join (Split s c) [c] = s"
proof (induction s)
  case Nil
  then show ?case by simp
next
  case (Cons a s)
  obtain y ys where ys: "Split s c = y # ys"
    using Split_nonempty[of s c] by (cases "Split s c") auto
  show ?case using Cons ys by (cases ys) auto
qed

lemma Split_Join:
  "xs \<noteq> [] \<Longrightarrow> \<forall>x\<in>set xs. c \<notin> set x \<Longrightarrow> Split (Join xs [c]) c = xs"
proof (induction xs "[c]" rule: Join.induct)
  case 1
  then show ?case by simp
next
  case (2 x)
  then show ?case by (induction x) auto
next
  case (3 x y ys)
  then show ?case by (induction x) auto
qed

lemma Split_union: "\<Union> (set ` set (Split s c)) \<subseteq> set s"
proof (induction s)
  case Nil
  then show ?case by simp
next
  case (Cons a s)
  obtain y ys where ys: "Split s c = y # ys"
    using Split_nonempty[of s c] by (cases "Split s c") auto
  show ?case using Cons ys by auto
qed

lemma Split_pieces: "x \<in> set (Split s c) \<Longrightarrow> set x \<subseteq> set s"
  using Split_union[of s c] by auto

lemma key_path_rev: "key_path pfx h = pfx @ ''/'' @ Join (rev (Split h CHR ''.'')) ''/''"
  by (simp add: key_path_def reverse_parts_rev)

lemma CreateDNSRecord_key:
  "fst (last (put_log (snd (CreateDNSRecord config st h)))) = key_path (EtcdPrefix config) h"
  by (simp add: CreateDNSRecord_def Put_def Let_def split: prod.splits option.splits)

text \<open>
  Claim C4, as amended: for every hostname that contains no \<^verbatim>\<open>/\<close>, splitting the key path
  under the prefix at the slashes, reversing the labels and joining them with dots gives
  the hostname back; and the key \<^verbatim>\<open>CreateDNSRecord\<close> writes is this path, whatever the
  state of the store, so every run writes the same key for the same hostname.
\<close>

theorem key_path_roundtrip:
  assumes "CHR ''/'' \<notin> set h"
  shows "path_hostname pfx (key_path pfx h) = h \<and>
         fst (last (put_log (snd (CreateDNSRecord config st h)))) =
           EtcdPrefix config @ ''/'' @ Join (rev (Split h CHR ''.'')) ''/''"
proof -
  let ?parts = "Split h CHR ''.''"
  have ne: "rev ?parts \<noteq> []" by (simp add: Split_nonempty)
  have "\<forall>x\<in>set (rev ?parts). CHR ''/'' \<notin> set x"
    using Split_pieces[of _ h "CHR ''.''"] assms by auto
  then have "Split (Join (rev ?parts) ''/'') CHR ''/'' = rev ?parts"
    using Split_Join[OF ne] by simp
  then have "path_hostname pfx (key_path pfx h) = h"
    by (simp add: path_hostname_def key_path_rev Join_Split)
  then show ?thesis by (simp add: CreateDNSRecord_key key_path_rev)
qed

theorem key_path_roundtrip_witness:
  "CHR ''/'' \<notin> set ''api.example.com'' \<and>
   path_hostname ''/skydns'' (key_path ''/skydns'' ''api.example.com'') = ''api.example.com'' \<and>
   key_path ''/skydns'' ''api.example.com'' = ''/skydns/com/example/api''"
  using key_path_roundtrip[of "''api.example.com''" "''/skydns''"]
  by (simp add: key_path_rev)

text \<open>
  A hostname with a \<^verbatim>\<open>/\<close> in a label shares its key with another hostname, and reading
  the key back gives the other one.
\<close>

theorem key_path_slash_counterexample:
  "key_path ''/skydns'' ''a/b.c'' = key_path ''/skydns'' ''b.a.c'' \<and>
   path_hostname ''/skydns'' (key_path ''/skydns'' ''a/b.c'') \<noteq> ''a/b.c''"
  by (simp add: key_path_rev path_hostname_def)

section \<open>Address literals and record values\<close>

lemma is_digit_hex: "is_digit c \<Longrightarrow> hex_digit c \<noteq> None"
  by (simp add: is_digit_def hex_digit_def)

lemma ip_char_htmlSafe: "ip_char c \<Longrightarrow> htmlSafe c"
  unfolding ip_char_def hex_digit_def htmlSafe_def dquote_def backslash_def byte_def
  by (auto split: if_splits)

lemma parseIPv4Fields_chars:
  "parseIPv4Fields s prev val digLen fs = Some r \<Longrightarrow> list_all ip_char s"
proof (induction s arbitrary: prev val digLen fs)
  case Nil
  then show ?case by simp
next
  case (Cons c cs)
  then show ?case
    by (auto simp: Let_def ip_char_def is_digit_hex split: if_splits)
qed

lemma hex_group_chars:
  "hex_group s off acc = Some (off', acc') \<Longrightarrow>
   off \<le> off' \<and> off' - off \<le> length s \<and> list_all ip_char (take (off' - off) s)"
proof (induction s arbitrary: off acc)
  case Nil
  then show ?case by simp
next
  case (Cons c cs)
  show ?case
  proof (cases "hex_digit c")
    case None
    with Cons.prems show ?thesis by simp
  next
    case (Some d)
    with Cons.prems have rec: "hex_group cs (off + 1) (acc * 16 + d) = Some (off', acc')"
      by (auto simp: Let_def split: if_splits)
    from Cons.IH[OF rec] have "off + 1 \<le> off'" "off' - (off + 1) \<le> length cs"
      "list_all ip_char (take (off' - (off + 1)) cs)" by auto
    moreover from \<open>off + 1 \<le> off'\<close> have "off' - off = Suc (off' - (off + 1))" by simp
    moreover have "ip_char c" using Some by (simp add: ip_char_def)
    ultimately show ?thesis by simp
  qed
qed

lemma parseIPv6_loop_chars:
  "parseIPv6_loop s ip ellipsis = Some ([], ip', ellipsis') \<Longrightarrow> list_all ip_char s"
proof (induction s ip ellipsis rule: parseIPv6_loop.induct)
  case (1 s ip ellipsis)
  show ?case
  proof (cases "length ip < 16")
    case False
    with "1.prems" show ?thesis by (simp add: parseIPv6_loop.simps)
  next
    case True
    from "1.prems" True obtain off acc where hg: "hex_group s 0 0 = Some (off, acc)"
      by (subst (asm) parseIPv6_loop.simps) (auto split: option.splits)
    from hex_group_chars[OF hg] have offs: "off \<le> length s" "list_all ip_char (take off s)"
      by auto
    have off0: "off \<noteq> 0"
      using "1.prems" True hg by (subst (asm) parseIPv6_loop.simps) (auto split: if_splits)
    show ?thesis
    proof (cases "off < length s \<and> s ! off = CHR ''.''")
      case dot: True
      with "1.prems" True hg off0 obtain fs where "parseIPv4Fields s None 0 0 [] = Some fs"
        by (subst (asm) parseIPv6_loop.simps) (auto split: if_splits option.splits)
      then show ?thesis by (rule parseIPv4Fields_chars)
    next
      case nodot: False
      let ?ip' = "ip @ [acc div 256, acc mod 256]"
      let ?s1 = "drop off s"
      have split: "s = take off s @ ?s1" by simp
      show ?thesis
      proof (cases "?s1 = []")
        case True
        then show ?thesis using offs by simp
      next
        case s1: False
        from "1.prems" True hg off0 nodot s1
        have colon: "hd ?s1 = CHR '':''" and len1: "length ?s1 \<noteq> 1"
          by (subst (asm) parseIPv6_loop.simps, auto simp: Let_def split: if_splits)+
        let ?s2 = "tl ?s1"
        have s1eq: "?s1 = CHR '':'' # ?s2" using s1 colon by (cases ?s1) auto
        have s2ne: "?s2 \<noteq> []"
        proof
          assume "?s2 = []"
          with s1eq have "?s1 = [CHR '':'']" by simp
          then have "length ?s1 = length [CHR '':'']" by (rule arg_cong)
          with len1 show False by simp
        qed
        show ?thesis
        proof (cases "hd ?s2 = CHR '':''")
          case dc: True
          let ?s3 = "tl ?s2"
          have s2eq: "?s2 = CHR '':'' # ?s3" using s2ne dc by (cases ?s2) auto
          have ell: "ellipsis = None"
            using "1.prems" True hg off0 nodot s1 colon len1 dc
            by (subst (asm) parseIPv6_loop.simps) (auto simp: Let_def split: if_splits)
          have "list_all ip_char ?s3"
          proof (cases "?s3 = []")
            case True
            then show ?thesis by simp
          next
            case s3: False
            have rec: "parseIPv6_loop ?s3 ?ip' (Some (length ?ip')) = Some ([], ip', ellipsis')"
              using "1.prems" True hg off0 nodot s1 colon len1 dc ell s3
              by (subst (asm) parseIPv6_loop.simps) (auto simp: Let_def split: if_splits)
            show ?thesis
              using "1.IH"(1)[OF True hg, of off acc ?ip' ?s1 ?s2 ?s3]
                off0 nodot s1 colon len1 dc ell s3 rec
              by simp
          qed
          moreover have colon_ok: "ip_char CHR '':''" by (simp add: ip_char_def)
          ultimately have "list_all ip_char (CHR '':'' # CHR '':'' # ?s3)" by simp
          then have "list_all ip_char ?s1"
            using s1eq s2eq by metis
          then show ?thesis using offs split by (metis list_all_append)
        next
          case ndc: False
          have rec: "parseIPv6_loop ?s2 ?ip' ellipsis = Some ([], ip', ellipsis')"
            using "1.prems" True hg off0 nodot s1 colon len1 ndc
            by (subst (asm) parseIPv6_loop.simps) (auto simp: Let_def split: if_splits)
          have "list_all ip_char ?s2"
            using "1.IH"(2)[OF True hg, of off acc ?ip' ?s1 ?s2]
              off0 nodot s1 colon len1 ndc rec
            by simp
          moreover have colon_ok: "ip_char CHR '':''" by (simp add: ip_char_def)
          ultimately have "list_all ip_char (CHR '':'' # ?s2)" by simp
          then have "list_all ip_char ?s1"
            using s1eq by metis
          then show ?thesis using offs split by (metis list_all_append)
        qed
      qed
    qed
  qed
qed


lemma finish_ipv6_rest: "finish_ipv6 (rest, ip, ell) = Some x \<Longrightarrow> rest = []"
  by (simp add: finish_ipv6_def split: if_splits)

lemma parseIPv6_body_chars:
  assumes "parseIPv6_body s0 = Some x"
  shows "list_all ip_char s0"
proof -
  have colon_ok: "ip_char CHR '':''" by (simp add: ip_char_def)
  show ?thesis
  proof (cases "length s0 \<ge> 2 \<and> s0 ! 0 = CHR '':'' \<and> s0 ! 1 = CHR '':''")
    case lead: True
    then have l: "(length s0 \<ge> 2 \<and> s0 ! 0 = CHR '':'' \<and> s0 ! 1 = CHR '':'') = True"
      by blast
    from lead obtain r where s0: "s0 = CHR '':'' # CHR '':'' # r"
      by (cases s0; cases "tl s0") auto
    have body: "parseIPv6_body s0 =
        (if drop 2 s0 = [] then Some [0, 0, 0, 0, 0, 0, 0, 0, 0, 0, 0, 0, 0, 0, 0, 0]
         else (case parseIPv6_loop (drop 2 s0) [] (Some 0) of None \<Rightarrow> None | Some r \<Rightarrow> finish_ipv6 r))"
      unfolding parseIPv6_body_def Let_def l by simp
    show ?thesis
    proof (cases "r = []")
      case True
      then show ?thesis using s0 colon_ok by simp
    next
      case False
      with assms s0 obtain t where t: "parseIPv6_loop r [] (Some 0) = Some t" "finish_ipv6 t = Some x"
        unfolding body by (simp split: option.splits)
      obtain rest ip' ell where "t = (rest, ip', ell)" by (cases t) auto
      with t finish_ipv6_rest have "parseIPv6_loop r [] (Some 0) = Some ([], ip', ell)" by blast
      then have "list_all ip_char r" by (rule parseIPv6_loop_chars)
      then show ?thesis using s0 colon_ok by simp
    qed
  next
    case False
    then have l: "(length s0 \<ge> 2 \<and> s0 ! 0 = CHR '':'' \<and> s0 ! 1 = CHR '':'') = False"
      by blast
    have body: "parseIPv6_body s0 =
        (case parseIPv6_loop s0 [] None of None \<Rightarrow> None | Some r \<Rightarrow> finish_ipv6 r)"
      unfolding parseIPv6_body_def Let_def l by simp
    with assms obtain t where t: "parseIPv6_loop s0 [] None = Some t" "finish_ipv6 t = Some x"
      by (simp split: option.splits)
    obtain rest ip' ell where "t = (rest, ip', ell)" by (cases t) auto
    with t finish_ipv6_rest have "parseIPv6_loop s0 [] None = Some ([], ip', ell)" by blast
    then show ?thesis by (rule parseIPv6_loop_chars)
  qed
qed

lemma parseIPv6_chars:
  assumes "parseIPv6 inp = Some (Addr6 ip [])"
  shows "list_all ip_char inp"
proof -
  have nz: "CHR ''%'' \<notin> set inp"
  proof
    assume z: "CHR ''%'' \<in> set inp"
    with assms show False
      by (auto simp: parseIPv6_def Let_def split: if_splits)
  qed
  then have tw: "takeWhile (\<lambda>c. c \<noteq> CHR ''%'') inp = inp"
    by auto
  from assms nz tw have "parseIPv6_body inp = Some ip"
    by (auto simp: parseIPv6_def Let_def)
  then show ?thesis by (rule parseIPv6_body_chars)
qed

lemma parseIPv4_Addr4: "parseIPv4 s \<noteq> Some (Addr6 ip zone)"
  by (auto simp: parseIPv4_def)

lemma parseIPv6_Addr6: "parseIPv6 s \<noteq> Some (Addr4 fs)"
  by (auto simp: parseIPv6_def Let_def)

lemma ParseIP_chars:
  assumes "ParseIP s = Some netIP"
  shows "s \<noteq> [] \<and> list_all ip_char s"
proof
  show "s \<noteq> []" using assms by (auto simp: ParseIP_def ParseAddr_def)
next
  from assms obtain a where a: "ParseAddr s = Some a"
    by (simp add: ParseIP_def split: option.splits)
  then have "parseIPv4 s = Some a \<or> parseIPv6 s = Some a"
    by (simp add: ParseAddr_def split: option.splits if_splits)
  then show "list_all ip_char s"
  proof
    assume p4: "parseIPv4 s = Some a"
    then obtain fs where "parseIPv4Fields s None 0 0 [] = Some fs"
      by (auto simp: parseIPv4_def)
    then show ?thesis by (rule parseIPv4Fields_chars)
  next
    assume p6: "parseIPv6 s = Some a"
    then obtain ip zone where az: "a = Addr6 ip zone"
      using parseIPv6_Addr6[of s] by (cases a) auto
    with assms a have "zone = []"
      by (simp add: ParseIP_def split: if_splits)
    with p6 az show ?thesis by (auto intro: parseIPv6_chars)
  qed
qed

lemma escape_string_safe: "list_all htmlSafe s \<Longrightarrow> escape_string s = s"
proof (induction s)
  case Nil
  then show ?case by (simp add: escape_string.simps)
next
  case (Cons b bs)
  then have "byte b < 0x80" "htmlSafe b" by (auto simp: htmlSafe_def)
  with Cons show ?case by (simp add: escape_string.simps)
qed

lemma Itoa_300: "Itoa 300 = ''300''"
  by (simp add: Itoa_def decimal.simps digit_char_def)

lemma appendString_safe: "list_all htmlSafe s \<Longrightarrow> appendString s = quoted s"
  by (simp add: appendString_def quoted_def escape_string_safe)

lemma appendString_host: "appendString ''host'' = quoted ''host''"
  by (rule appendString_safe) (simp add: htmlSafe_def byte_def dquote_def backslash_def)

lemma appendString_ttl: "appendString ''ttl'' = quoted ''ttl''"
  by (rule appendString_safe) (simp add: htmlSafe_def byte_def dquote_def backslash_def)

lemma Marshal_nonempty:
  "h \<noteq> [] \<Longrightarrow> Marshal \<lparr> Host = h, TTL = 300 \<rparr> = json_record (appendString h)"
  by (simp add: Marshal_def json_record_def appendString_host appendString_ttl Itoa_300)

lemma Marshal_empty: "Marshal \<lparr> Host = [], TTL = 300 \<rparr> = ttl_only_record"
  by (simp add: Marshal_def ttl_only_record_def appendString_ttl Itoa_300)

lemma Marshal_safe:
  "h \<noteq> [] \<Longrightarrow> list_all htmlSafe h \<Longrightarrow> Marshal \<lparr> Host = h, TTL = 300 \<rparr> = record_json h"
  by (simp add: Marshal_nonempty appendString_safe record_json_def)

lemma Marshal_ip:
  "ParseIP ip = Some netIP \<Longrightarrow> Marshal \<lparr> Host = ip, TTL = 300 \<rparr> = record_json ip"
  using ParseIP_chars[of ip netIP] ip_char_htmlSafe
  by (intro Marshal_safe) (auto simp: list_all_iff)

subsection \<open>Evaluating the parser on concrete addresses\<close>

lemma replicate_numeral: "replicate (numeral v) x = x # replicate (numeral v - 1) x"
  by (simp add: numeral_eq_Suc)

lemmas ParseIP_eval = ParseIP_def ParseAddr_def parseIPv6_def parseIPv6_body_def finish_ipv6_def
  parseIPv4_def parseIPv6_loop.simps hex_digit_def is_digit_def byte_def replicate_numeral

lemma ParseIP_10_0_0_1: "ParseIP ''10.0.0.1'' = Some [0, 0, 0, 0, 0, 0, 0, 0, 0, 0, 255, 255, 10, 0, 0, 1]"
  by (simp add: ParseIP_eval)

lemma ParseIP_10_0_0_2: "ParseIP ''10.0.0.2'' = Some [0, 0, 0, 0, 0, 0, 0, 0, 0, 0, 255, 255, 10, 0, 0, 2]"
  by (simp add: ParseIP_eval)

lemma ParseIP_192_0_2_5: "ParseIP ''192.0.2.5'' = Some [0, 0, 0, 0, 0, 0, 0, 0, 0, 0, 255, 255, 192, 0, 2, 5]"
  by (simp add: ParseIP_eval)

lemma ParseIP_fe80_1: "ParseIP ''fe80::1'' = Some [254, 128, 0, 0, 0, 0, 0, 0, 0, 0, 0, 0, 0, 0, 0, 1]"
  by (simp add: ParseIP_eval)

lemma ParseIP_2001_db8_1: "ParseIP ''2001:db8::1'' = Some [32, 1, 13, 184, 0, 0, 0, 0, 0, 0, 0, 0, 0, 0, 0, 1]"
  by (simp add: ParseIP_eval)

lemma ParseIP_2001_db8_2: "ParseIP ''2001:db8::2'' = Some [32, 1, 13, 184, 0, 0, 0, 0, 0, 0, 0, 0, 0, 0, 0, 2]"
  by (simp add: ParseIP_eval)

lemma ParseIP_2001_db8_5: "ParseIP ''2001:db8::5'' = Some [32, 1, 13, 184, 0, 0, 0, 0, 0, 0, 0, 0, 0, 0, 0, 5]"
  by (simp add: ParseIP_eval)

lemma ParseIP_bogus: "ParseIP ''bogus'' = None"
  by (simp add: ParseIP_eval)

lemmas ParseIP_examples = ParseIP_10_0_0_1 ParseIP_10_0_0_2 ParseIP_192_0_2_5 ParseIP_fe80_1
  ParseIP_2001_db8_1 ParseIP_2001_db8_2 ParseIP_2001_db8_5 ParseIP_bogus

lemma LoadConfig_example: "LoadConfig example_env None = Some example_config"
  by (simp add: LoadConfig_def detectDNSTarget_def getEnv_def example_env_def example_config_def)

lemma LoadConfig_TTL: "LoadConfig env hostfile = Some config \<Longrightarrow> RecordTTL config = 300"
  by (auto simp: LoadConfig_def split: option.splits)

section \<open>Writes of the Proxmox path\<close>

lemma Put_ok:
  "put_faults st = [] \<or> \<not> hd (put_faults st) \<Longrightarrow>
   Put st k v = (None, st\<lparr> put_log := put_log st @ [(k, v)], put_faults := tl (put_faults st),
                           kv := (kv st)(k \<mapsto> v) \<rparr>)"
  by (auto simp: Put_def Let_def)

lemma Put_fail:
  "put_faults st = True # fs \<Longrightarrow>
   Put st k v = (Some ApiError, st\<lparr> put_log := put_log st @ [(k, v)], put_faults := fs \<rparr>)"
  by (simp add: Put_def Let_def)

lemma records_loop_run:
  "snd (records_loop config hostname base st c4 c6 ips) =
     snd (run_puts st (planned_puts config base c4 c6 ips)) \<and>
   (fst (records_loop config hostname base st c4 c6 ips) = None) =
     fst (run_puts st (planned_puts config base c4 c6 ips))"
proof (induction ips arbitrary: st c4 c6)
  case Nil
  show ?case by simp
next
  case (Cons ip ips)
  show ?case
  proof (cases "ParseIP ip")
    case None
    then show ?thesis using Cons.IH by simp
  next
    case (Some netIP)
    show ?thesis
    proof (cases "To4 netIP \<noteq> None")
      case True
      let ?k = "base @ ''/a'' @ Itoa (int (c4 + 1))"
      let ?v = "Marshal \<lparr> Host = ip, TTL = RecordTTL config \<rparr>"
      obtain e st' where p: "Put st ?k ?v = (e, st')" by (cases "Put st ?k ?v") auto
      show ?thesis
        using Some True p Cons.IH[of st' "c4 + 1" c6]
        by (cases e) (simp_all add: Let_def)
    next
      case False
      let ?k = "base @ ''/aaaa'' @ Itoa (int (c6 + 1))"
      let ?v = "Marshal \<lparr> Host = ip, TTL = RecordTTL config \<rparr>"
      obtain e st' where p: "Put st ?k ?v = (e, st')" by (cases "Put st ?k ?v") auto
      show ?thesis
        using Some False p Cons.IH[of st' c4 "c6 + 1"]
        by (cases e) (simp_all add: Let_def)
    qed
  qed
qed

lemma store_all_Cons: "store_all m (p # ps) = store_all (m(fst p \<mapsto> snd p)) ps"
  by (simp add: store_all_def)

lemma store_all_Nil: "store_all m [] = m"
  by (simp add: store_all_def)

text \<open>A run in which the first \<open>length ps\<close> outcomes are all successes.\<close>

lemma run_puts_ok:
  "True \<notin> set (take (length ps) (put_faults st)) \<Longrightarrow>
   run_puts st ps =
     (True, st\<lparr> put_log := put_log st @ ps, put_faults := drop (length ps) (put_faults st),
                 kv := store_all (kv st) ps \<rparr>)"
proof (induction ps arbitrary: st)
  case Nil
  then show ?case by (simp add: store_all_Nil)
next
  case (Cons p ps)
  let ?st' = "st\<lparr> put_log := put_log st @ [(fst p, snd p)], put_faults := tl (put_faults st),
                    kv := (kv st)(fst p \<mapsto> snd p) \<rparr>"
  from Cons.prems have ok: "put_faults st = [] \<or> \<not> hd (put_faults st)"
    by (cases "put_faults st") auto
  from Cons.prems have "True \<notin> set (take (length ps) (put_faults ?st'))"
    by (cases "put_faults st") auto
  from Cons.IH[OF this]
  have "run_puts ?st' ps =
      (True, ?st'\<lparr> put_log := put_log ?st' @ ps, put_faults := drop (length ps) (put_faults ?st'),
                   kv := store_all (kv ?st') ps \<rparr>)" .
  moreover have "run_puts st (p # ps) = run_puts ?st' ps"
    using Put_ok[OF ok, of "fst p" "snd p"] by simp
  moreover have "?st'\<lparr> put_log := put_log ?st' @ ps, put_faults := drop (length ps) (put_faults ?st'),
                   kv := store_all (kv ?st') ps \<rparr> =
      st\<lparr> put_log := put_log st @ p # ps, put_faults := drop (length (p # ps)) (put_faults st),
          kv := store_all (kv st) (p # ps) \<rparr>"
    by (simp add: store_all_Cons drop_Suc)
  ultimately show ?case by (simp only:)
qed

text \<open>A run whose first failure is the call number \<open>n\<close> (counted from 0).\<close>

lemma run_puts_fault:
  "put_faults st = replicate n False @ True # later \<Longrightarrow> n < length ps \<Longrightarrow>
   run_puts st ps =
     (False, st\<lparr> put_log := put_log st @ take (Suc n) ps, put_faults := later,
                  kv := store_all (kv st) (take n ps) \<rparr>)"
proof (induction n arbitrary: st ps)
  case 0
  then obtain p ps' where ps: "ps = p # ps'" by (cases ps) auto
  from 0 have "put_faults st = True # later" by simp
  from Put_fail[OF this] show ?case by (simp add: ps store_all_Nil)
next
  case (Suc n)
  then obtain p ps' where ps: "ps = p # ps'" by (cases ps) auto
  let ?st' = "st\<lparr> put_log := put_log st @ [(fst p, snd p)], put_faults := tl (put_faults st),
                    kv := (kv st)(fst p \<mapsto> snd p) \<rparr>"
  from Suc.prems have ok: "put_faults st = [] \<or> \<not> hd (put_faults st)" by simp
  from Suc.prems have f': "put_faults ?st' = replicate n False @ True # later" by simp
  from Suc.prems ps have n: "n < length ps'" by simp
  from Suc.IH[OF f' n]
  have "run_puts ?st' ps' =
      (False, ?st'\<lparr> put_log := put_log ?st' @ take (Suc n) ps', put_faults := later,
                    kv := store_all (kv ?st') (take n ps') \<rparr>)" .
  moreover have "run_puts st (p # ps') = run_puts ?st' ps'"
    using Put_ok[OF ok, of "fst p" "snd p"] by simp
  moreover have "?st'\<lparr> put_log := put_log ?st' @ take (Suc n) ps', put_faults := later,
                    kv := store_all (kv ?st') (take n ps') \<rparr> =
      st\<lparr> put_log := put_log st @ take (Suc (Suc n)) (p # ps'), put_faults := later,
          kv := store_all (kv st) (take (Suc n) (p # ps')) \<rparr>"
    by (simp add: store_all_Cons)
  ultimately show ?case by (simp only: ps)
qed

lemma ip_family_None: "(ip_family ip = None) = (ParseIP ip = None)"
  by (simp add: ip_family_def split: option.splits)

lemma ip_family_v4: "ParseIP ip = Some netIP \<Longrightarrow> (ip_family ip = Some IPv4) = (To4 netIP \<noteq> None)"
  by (simp add: ip_family_def)

lemma ip_family_v6: "ParseIP ip = Some netIP \<Longrightarrow> (ip_family ip = Some IPv6) = (To4 netIP = None)"
  by (simp add: ip_family_def)

lemma planned_values:
  "map snd (planned_puts config base c4 c6 ips) =
   map (\<lambda>ip. Marshal \<lparr> Host = ip, TTL = RecordTTL config \<rparr>) (filter (\<lambda>ip. ParseIP ip \<noteq> None) ips)"
  by (induction ips arbitrary: c4 c6) (auto split: option.splits)

lemma valid_nth_family:
  "\<forall>j < length (filter (\<lambda>ip. ip_family ip \<noteq> None) ips).
     ip_family (filter (\<lambda>ip. ip_family ip \<noteq> None) ips ! j) = Some IPv4 \<or>
     ip_family (filter (\<lambda>ip. ip_family ip \<noteq> None) ips ! j) = Some IPv6"
proof (intro allI impI)
  fix j
  let ?valid = "filter (\<lambda>ip. ip_family ip \<noteq> None) ips"
  assume "j < length ?valid"
  then have "?valid ! j \<in> set ?valid" by (rule nth_mem)
  then have "ip_family (?valid ! j) \<noteq> None" by simp
  then obtain f where f: "ip_family (?valid ! j) = Some f" by auto
  then show "ip_family (?valid ! j) = Some IPv4 \<or> ip_family (?valid ! j) = Some IPv6"
    by (cases f) auto
qed

text \<open>The counters of the loop against the count of each family in the list so far.\<close>

lemma planned_keys_from:
  "map fst (planned_puts config base c4 c6 ips) =
   (let valid = filter (\<lambda>ip. ip_family ip \<noteq> None) ips in
    map (\<lambda>j. base @ (if ip_family (valid ! j) = Some IPv4 then ''/a'' else ''/aaaa'') @
              Itoa (int ((if ip_family (valid ! j) = Some IPv4 then c4 else c6) +
                         length (filter (\<lambda>x. ip_family x = ip_family (valid ! j))
                                        (take (Suc j) valid)))))
        [0..<length valid])"
proof (induction ips arbitrary: c4 c6)
  case Nil
  show ?case by simp
next
  case (Cons ip ips)
  show ?case
  proof (cases "ParseIP ip")
    case None
    then show ?thesis using Cons.IH[of c4 c6] by (simp add: ip_family_None Let_def)
  next
    case (Some netIP)
    then have valid: "ip_family ip \<noteq> None" by (simp add: ip_family_None)
    show ?thesis
    proof (cases "To4 netIP \<noteq> None")
      case True
      then have fam: "ip_family ip = Some IPv4" using Some by (simp add: ip_family_v4)
      show ?thesis
        using Some True valid fam Cons.IH[of "c4 + 1" c6] valid_nth_family[of ips]
        by (auto simp: Let_def map_upt_Suc ac_simps simp del: upt_Suc)
    next
      case False
      then have fam: "ip_family ip = Some IPv6" using Some by (simp add: ip_family_v6)
      show ?thesis
        using Some False valid fam Cons.IH[of c4 "c6 + 1"] valid_nth_family[of ips]
        by (auto simp: Let_def map_upt_Suc ac_simps simp del: upt_Suc)
    qed
  qed
qed

lemma planned_keys:
  "map fst (planned_puts config base 0 0 ips) = expected_keys base ips"
  using planned_keys_from[of config base 0 0 ips] by (simp add: expected_keys_def Let_def)

section \<open>Claims about the records of the Proxmox path\<close>

lemma CreateDNSRecords_run:
  "snd (CreateDNSRecords config st hostname ips) =
     snd (run_puts st (planned_puts config (key_path (EtcdPrefix config) hostname) 0 0 ips)) \<and>
   (fst (CreateDNSRecords config st hostname ips) = None) =
     fst (run_puts st (planned_puts config (key_path (EtcdPrefix config) hostname) 0 0 ips))"
  unfolding CreateDNSRecords_def by (rule records_loop_run)

lemma run_puts_log: "\<exists>n. put_log (snd (run_puts st ps)) = put_log st @ take n ps"
proof (induction ps arbitrary: st)
  case Nil
  show ?case by simp
next
  case (Cons p ps)
  obtain e st' where put: "Put st (fst p) (snd p) = (e, st')"
    by (cases "Put st (fst p) (snd p)") auto
  then have log: "put_log st' = put_log st @ [p]"
    by (auto simp: Put_def Let_def split: if_splits)
  show ?case
  proof (cases e)
    case None
    from Cons.IH[of st'] obtain n where "put_log (snd (run_puts st' ps)) = put_log st' @ take n ps"
      by blast
    then have "put_log (snd (run_puts st (p # ps))) = put_log st @ take (Suc n) (p # ps)"
      using put None log by simp
    then show ?thesis by blast
  next
    case (Some err)
    then have "put_log (snd (run_puts st (p # ps))) = put_log st @ take (Suc 0) (p # ps)"
      using put log by simp
    then show ?thesis by blast
  qed
qed

lemma writes_prefix:
  "prefix (writes_of st (snd (run_puts st ps))) ps"
proof -
  obtain n where "put_log (snd (run_puts st ps)) = put_log st @ take n ps"
    using run_puts_log by blast
  then have "writes_of st (snd (run_puts st ps)) = take n ps"
    by (simp add: writes_of_def)
  then show ?thesis by (simp add: take_is_prefix)
qed

lemma writes_sound:
  assumes "True \<notin> set (put_faults st)"
  shows "run_puts st ps =
     (True, st\<lparr> put_log := put_log st @ ps, put_faults := drop (length ps) (put_faults st),
                 kv := store_all (kv st) ps \<rparr>)"
proof (rule run_puts_ok)
  show "True \<notin> set (take (length ps) (put_faults st))"
    using assms set_take_subset[of "length ps" "put_faults st"] by blast
qed

lemma key_path_base:
  "key_path (EtcdPrefix config) hostname =
   EtcdPrefix config @ ''/'' @ Join (rev (Split hostname CHR ''.'')) ''/''"
  by (rule key_path_rev)

text \<open>
  Claim C1, as amended: every key \<^verbatim>\<open>CreateDNSRecords\<close> hands to the store is the reversed
  domain path under the prefix followed by the leaf \<^verbatim>\<open>a<N>\<close> or \<^verbatim>\<open>aaaa<N>\<close>, counted from
  1 within each family in resolution order, for any number of addresses (one as well as
  several); when no write fails there is one such key for every address that parses.
\<close>

theorem CreateDNSRecords_keys:
  "prefix (map fst (writes_of st (snd (CreateDNSRecords config st hostname ips))))
          (expected_keys (EtcdPrefix config @ ''/'' @ Join (rev (Split hostname CHR ''.'')) ''/'') ips) \<and>
   (True \<notin> set (put_faults st) \<longrightarrow>
      map fst (writes_of st (snd (CreateDNSRecords config st hostname ips))) =
      expected_keys (EtcdPrefix config @ ''/'' @ Join (rev (Split hostname CHR ''.'')) ''/'') ips)"
proof -
  let ?base = "key_path (EtcdPrefix config) hostname"
  let ?ps = "planned_puts config ?base 0 0 ips"
  have st': "snd (CreateDNSRecords config st hostname ips) = snd (run_puts st ?ps)"
    using CreateDNSRecords_run by blast
  have keys: "map fst ?ps = expected_keys ?base ips" by (rule planned_keys)
  have "prefix (map fst (writes_of st (snd (run_puts st ?ps)))) (map fst ?ps)"
    using writes_prefix[of st ?ps] by (rule map_mono_prefix)
  then have one: "prefix (map fst (writes_of st (snd (CreateDNSRecords config st hostname ips))))
      (expected_keys ?base ips)"
    by (simp only: st' keys)
  have two: "map fst (writes_of st (snd (CreateDNSRecords config st hostname ips))) =
      expected_keys ?base ips" if "True \<notin> set (put_faults st)"
  proof -
    have "writes_of st (snd (run_puts st ?ps)) = ?ps"
      by (simp add: writes_sound[OF that] writes_of_def)
    then show ?thesis by (simp only: st' keys)
  qed
  from one two show ?thesis by (simp only: key_path_base) blast
qed

lemma decimal_digit: "n < 10 \<Longrightarrow> decimal n = [digit_char n]"
  by (simp add: decimal.simps)

lemma Itoa_1: "Itoa 1 = ''1''"
  by (simp add: Itoa_def decimal.simps digit_char_def)

lemma Itoa_2: "Itoa 2 = ''2''"
  by (simp add: Itoa_def decimal.simps digit_char_def)

lemma To4_mapped: "To4 [0, 0, 0, 0, 0, 0, 0, 0, 0, 0, 255, 255, a, b, c, d] = Some [a, b, c, d]"
  by (simp add: To4_def)

lemma To4_native: "a \<noteq> 0 \<Longrightarrow> length rest = 15 \<Longrightarrow> To4 (a # rest) = None"
  by (simp add: To4_def)

lemmas To4_examples = To4_mapped To4_native

lemma example_base: "key_path ''/skydns'' ''web.home.lab'' = ''/skydns/lab/home/web''"
  by (simp add: key_path_rev)

lemma example_TTL: "RecordTTL example_config = 300" and example_prefix: "EtcdPrefix example_config = ''/skydns''"
  by (simp_all add: example_config_def)

lemma example_planned:
  "planned_puts example_config ''/skydns/lab/home/web'' 0 0 [''10.0.0.1'', ''10.0.0.2'', ''2001:db8::1''] =
     [(''/skydns/lab/home/web/a1'', record_json ''10.0.0.1''),
      (''/skydns/lab/home/web/a2'', record_json ''10.0.0.2''),
      (''/skydns/lab/home/web/aaaa1'', record_json ''2001:db8::1'')]"
  by (simp add: ParseIP_examples To4_examples example_TTL Itoa_1 Itoa_2
      Marshal_ip[OF ParseIP_10_0_0_1] Marshal_ip[OF ParseIP_10_0_0_2] Marshal_ip[OF ParseIP_2001_db8_1])

lemma example_planned_single:
  "planned_puts example_config ''/skydns/lab/home/web'' 0 0 [''10.0.0.1''] =
     [(''/skydns/lab/home/web/a1'', record_json ''10.0.0.1'')]"
  by (simp add: ParseIP_examples To4_examples example_TTL Itoa_1 Marshal_ip[OF ParseIP_10_0_0_1])

lemma empty_store_sound: "True \<notin> set (put_faults empty_store)"
  by (simp add: empty_store_def)

lemma sound_writes:
  "True \<notin> set (put_faults st) \<Longrightarrow>
   writes_of st (snd (CreateDNSRecords config st hostname ips)) =
     planned_puts config (key_path (EtcdPrefix config) hostname) 0 0 ips"
  using CreateDNSRecords_run[of config st hostname ips]
  by (simp add: writes_sound writes_of_def)

lemma example_writes:
  "writes_of empty_store (snd (CreateDNSRecords example_config empty_store ''web.home.lab''
       [''10.0.0.1'', ''10.0.0.2'', ''2001:db8::1''])) =
     [(''/skydns/lab/home/web/a1'', record_json ''10.0.0.1''),
      (''/skydns/lab/home/web/a2'', record_json ''10.0.0.2''),
      (''/skydns/lab/home/web/aaaa1'', record_json ''2001:db8::1'')]"
  by (simp only: sound_writes[OF empty_store_sound] example_prefix example_base example_planned)

lemma example_writes_single:
  "writes_of empty_store (snd (CreateDNSRecords example_config empty_store ''web.home.lab'' [''10.0.0.1''])) =
     [(''/skydns/lab/home/web/a1'', record_json ''10.0.0.1'')]"
  by (simp only: sound_writes[OF empty_store_sound] example_prefix example_base example_planned_single)

theorem CreateDNSRecords_keys_witness:
  "True \<notin> set (put_faults empty_store) \<and>
   map fst (writes_of empty_store (snd (CreateDNSRecords example_config empty_store ''web.home.lab''
       [''10.0.0.1'', ''10.0.0.2'', ''2001:db8::1'']))) =
   expected_keys (EtcdPrefix example_config @ ''/'' @ Join (rev (Split ''web.home.lab'' CHR ''.'')) ''/'')
       [''10.0.0.1'', ''10.0.0.2'', ''2001:db8::1''] \<and>
   map fst (writes_of empty_store (snd (CreateDNSRecords example_config empty_store ''web.home.lab''
       [''10.0.0.1'', ''10.0.0.2'', ''2001:db8::1'']))) =
   [''/skydns/lab/home/web/a1'', ''/skydns/lab/home/web/a2'', ''/skydns/lab/home/web/aaaa1'']"
  using CreateDNSRecords_keys[of empty_store example_config "''web.home.lab''"
      "[''10.0.0.1'', ''10.0.0.2'', ''2001:db8::1'']"] empty_store_sound
  by (simp add: example_writes)

text \<open>
  A host with exactly one resolved address: the key carries the leaf \<^verbatim>\<open>a1\<close>; it is not
  the bare path.
\<close>

theorem single_address_key_counterexample:
  "map fst (writes_of empty_store (snd (CreateDNSRecords example_config empty_store ''web.home.lab''
       [''10.0.0.1'']))) = [''/skydns/lab/home/web/a1''] \<and>
   map fst (writes_of empty_store (snd (CreateDNSRecords example_config empty_store ''web.home.lab''
       [''10.0.0.1'']))) \<noteq> [key_path (EtcdPrefix example_config) ''web.home.lab'']"
  by (simp add: example_writes_single example_prefix example_base)

section \<open>Record values and failing writes\<close>

lemma CreateDNSRecord_writes:
  "writes_of st (snd (CreateDNSRecord config st hostname)) =
     [(key_path (EtcdPrefix config) hostname,
       Marshal \<lparr> Host = DNSTarget config, TTL = RecordTTL config \<rparr>)]"
  by (simp add: CreateDNSRecord_def Put_def Let_def writes_of_def)

lemma planned_values_300:
  "RecordTTL config = 300 \<Longrightarrow>
   map snd (planned_puts config base c4 c6 ips) = map record_json (filter (\<lambda>ip. ParseIP ip \<noteq> None) ips)"
proof (induction ips arbitrary: c4 c6)
  case Nil
  show ?case by simp
next
  case (Cons ip ips)
  show ?case
  proof (cases "ParseIP ip")
    case None
    then show ?thesis using Cons by simp
  next
    case (Some netIP)
    then show ?thesis using Cons Marshal_ip[OF Some] by simp
  qed
qed

lemma detectDNSTarget_nonempty: "detectDNSTarget env hostfile = Some target \<Longrightarrow> target \<noteq> []"
  by (auto simp: detectDNSTarget_def Let_def getEnv_def split: if_splits option.splits)

lemma LoadConfig_target: "LoadConfig env hostfile = Some config \<Longrightarrow> DNSTarget config \<noteq> []"
  by (auto simp: LoadConfig_def split: option.splits dest: detectDNSTarget_nonempty)

text \<open>
  Claim C9, as amended: with the TTL of 300 that \<^verbatim>\<open>LoadConfig\<close> fixes, the value
  handed to the store is the JSON object with the member \<^verbatim>\<open>host\<close>, holding the JSON
  string literal of the target, and the member \<^verbatim>\<open>ttl\<close> equal to 300, for every hostname
  and every non-empty target; the literal is the target between double quotes when the
  target has no character that JSON escapes, as is the case for every address the
  Proxmox path writes. For the empty target the member \<^verbatim>\<open>host\<close> is left out.
\<close>

theorem record_values:
  assumes "RecordTTL config = 300"
  shows "(LoadConfig env hostfile = Some loaded \<longrightarrow> RecordTTL loaded = 300 \<and> DNSTarget loaded \<noteq> []) \<and>
         (DNSTarget config \<noteq> [] \<longrightarrow>
            map snd (writes_of st (snd (CreateDNSRecord config st hostname))) =
              [json_record (appendString (DNSTarget config))]) \<and>
         (DNSTarget config \<noteq> [] \<and> list_all htmlSafe (DNSTarget config) \<longrightarrow>
            map snd (writes_of st (snd (CreateDNSRecord config st hostname))) =
              [record_json (DNSTarget config)]) \<and>
         (DNSTarget config = [] \<longrightarrow>
            map snd (writes_of st (snd (CreateDNSRecord config st hostname))) = [ttl_only_record]) \<and>
         prefix (map snd (writes_of st (snd (CreateDNSRecords config st hostname ips))))
                (map record_json (filter (\<lambda>ip. ParseIP ip \<noteq> None) ips))"
proof (intro conjI impI)
  assume "LoadConfig env hostfile = Some loaded"
  then show "RecordTTL loaded = 300" by (rule LoadConfig_TTL)
next
  assume "LoadConfig env hostfile = Some loaded"
  then show "DNSTarget loaded \<noteq> []" by (rule LoadConfig_target)
next
  assume "DNSTarget config \<noteq> []"
  then show "map snd (writes_of st (snd (CreateDNSRecord config st hostname))) =
      [json_record (appendString (DNSTarget config))]"
    using assms by (simp add: CreateDNSRecord_writes Marshal_nonempty)
next
  assume "DNSTarget config \<noteq> [] \<and> list_all htmlSafe (DNSTarget config)"
  then show "map snd (writes_of st (snd (CreateDNSRecord config st hostname))) =
      [record_json (DNSTarget config)]"
    using assms by (simp add: CreateDNSRecord_writes Marshal_safe)
next
  assume "DNSTarget config = []"
  then show "map snd (writes_of st (snd (CreateDNSRecord config st hostname))) = [ttl_only_record]"
    using assms by (simp add: CreateDNSRecord_writes Marshal_empty)
next
  let ?ps = "planned_puts config (key_path (EtcdPrefix config) hostname) 0 0 ips"
  have "prefix (map snd (writes_of st (snd (run_puts st ?ps)))) (map snd ?ps)"
    using writes_prefix[of st ?ps] by (rule map_mono_prefix)
  moreover have "snd (CreateDNSRecords config st hostname ips) = snd (run_puts st ?ps)"
    using CreateDNSRecords_run by blast
  ultimately show "prefix (map snd (writes_of st (snd (CreateDNSRecords config st hostname ips))))
      (map record_json (filter (\<lambda>ip. ParseIP ip \<noteq> None) ips))"
    by (simp only: planned_values_300[OF assms])
qed

lemma example_target: "DNSTarget example_config = ''traefik.home.lab''"
  by (simp add: example_config_def)

lemma example_target_safe: "list_all htmlSafe ''traefik.home.lab''"
  by (simp add: htmlSafe_def byte_def dquote_def backslash_def)

lemma example_marshal: "Marshal \<lparr> Host = ''traefik.home.lab'', TTL = 300 \<rparr> = record_json ''traefik.home.lab''"
  by (rule Marshal_safe[OF _ example_target_safe]) simp

theorem record_values_witness:
  "LoadConfig example_env None = Some example_config \<and>
   RecordTTL example_config = 300 \<and>
   DNSTarget example_config \<noteq> [] \<and> list_all htmlSafe (DNSTarget example_config) \<and>
   map snd (writes_of empty_store (snd (CreateDNSRecord example_config empty_store ''web.home.lab''))) =
     [record_json ''traefik.home.lab''] \<and>
   prefix (map snd (writes_of empty_store (snd (CreateDNSRecords example_config empty_store ''web.home.lab''
        [''10.0.0.1'', ''bogus'', ''2001:db8::1'']))))
     [record_json ''10.0.0.1'', record_json ''2001:db8::1'']"
proof -
  have ttl: "RecordTTL example_config = 300" by (rule example_TTL)
  have ne: "DNSTarget example_config \<noteq> []" by (simp add: example_target)
  have safe: "list_all htmlSafe (DNSTarget example_config)"
    by (simp only: example_target example_target_safe)
  note r = record_values[OF ttl, where st = empty_store and hostname = "''web.home.lab''"
      and ips = "[''10.0.0.1'', ''bogus'', ''2001:db8::1'']" and env = example_env
      and hostfile = None and loaded = example_config]
  from r ne safe
  have v: "map snd (writes_of empty_store (snd (CreateDNSRecord example_config empty_store ''web.home.lab''))) =
      [record_json (DNSTarget example_config)]" by blast
  have f: "filter (\<lambda>ip. ParseIP ip \<noteq> None) [''10.0.0.1'', ''bogus'', ''2001:db8::1''] =
      [''10.0.0.1'', ''2001:db8::1'']"
    by (simp add: ParseIP_examples)
  from r have p: "prefix (map snd (writes_of empty_store (snd (CreateDNSRecords example_config empty_store
        ''web.home.lab'' [''10.0.0.1'', ''bogus'', ''2001:db8::1'']))))
      (map record_json (filter (\<lambda>ip. ParseIP ip \<noteq> None) [''10.0.0.1'', ''bogus'', ''2001:db8::1'']))"
    by blast
  from LoadConfig_example ttl ne safe v p show ?thesis
    by (simp only: f example_target list.map) simp
qed

text \<open>
  The configured target is the empty string: the value written has no \<^verbatim>\<open>host\<close> member.
\<close>

theorem empty_target_counterexample:
  "map snd (writes_of empty_store
     (snd (CreateDNSRecord (example_config\<lparr> DNSTarget := [] \<rparr>) empty_store ''web.home.lab''))) =
     [ttl_only_record] \<and>
   ttl_only_record \<noteq> record_json []"
  by (simp add: CreateDNSRecord_writes Marshal_empty example_TTL
      ttl_only_record_def record_json_def json_record_def quoted_def)

text \<open>
  Claim C10: when the first failing \<^verbatim>\<open>Put\<close> is the call number \<open>n\<close> (counted from 0) of
  the calls a sound store would receive, \<^verbatim>\<open>CreateDNSRecords\<close> returns an error, the
  store holds the \<open>n\<close> records written before, and no call follows the failing one.
\<close>

theorem CreateDNSRecords_stops_at_failure:
  assumes "put_faults st = replicate n False @ True # later"
    and "n < length (writes_of (fault_free st) (snd (CreateDNSRecords config (fault_free st) hostname ips)))"
  shows "fst (CreateDNSRecords config st hostname ips) \<noteq> None \<and>
         writes_of st (snd (CreateDNSRecords config st hostname ips)) =
           take (Suc n) (writes_of (fault_free st) (snd (CreateDNSRecords config (fault_free st) hostname ips))) \<and>
         kv (snd (CreateDNSRecords config st hostname ips)) =
           store_all (kv st)
             (take n (writes_of (fault_free st) (snd (CreateDNSRecords config (fault_free st) hostname ips))))"
proof -
  let ?ps = "planned_puts config (key_path (EtcdPrefix config) hostname) 0 0 ips"
  have "True \<notin> set (put_faults (fault_free st))" by (simp add: fault_free_def)
  then have free: "writes_of (fault_free st) (snd (CreateDNSRecords config (fault_free st) hostname ips)) = ?ps"
    by (rule sound_writes)
  with assms(2) have n: "n < length ?ps" by simp
  from run_puts_fault[OF assms(1) n] CreateDNSRecords_run[of config st hostname ips]
  have "fst (CreateDNSRecords config st hostname ips) \<noteq> None \<and>
      writes_of st (snd (CreateDNSRecords config st hostname ips)) = take (Suc n) ?ps \<and>
      kv (snd (CreateDNSRecords config st hostname ips)) = store_all (kv st) (take n ?ps)"
    by (simp add: writes_of_def)
  then show ?thesis unfolding free by simp
qed

lemma fault_free_faulty: "fault_free faulty_store = empty_store"
  by (simp add: fault_free_def faulty_store_def empty_store_def)

theorem CreateDNSRecords_stops_at_failure_witness:
  "put_faults faulty_store = replicate 1 False @ True # [] \<and>
   1 < length (writes_of (fault_free faulty_store)
         (snd (CreateDNSRecords example_config (fault_free faulty_store) ''web.home.lab''
            [''10.0.0.1'', ''10.0.0.2'', ''2001:db8::1'']))) \<and>
   fst (CreateDNSRecords example_config faulty_store ''web.home.lab''
          [''10.0.0.1'', ''10.0.0.2'', ''2001:db8::1'']) \<noteq> None \<and>
   writes_of faulty_store (snd (CreateDNSRecords example_config faulty_store ''web.home.lab''
          [''10.0.0.1'', ''10.0.0.2'', ''2001:db8::1''])) =
     [(''/skydns/lab/home/web/a1'', record_json ''10.0.0.1''),
      (''/skydns/lab/home/web/a2'', record_json ''10.0.0.2'')] \<and>
   kv (snd (CreateDNSRecords example_config faulty_store ''web.home.lab''
          [''10.0.0.1'', ''10.0.0.2'', ''2001:db8::1''])) =
     store_all (kv faulty_store) [(''/skydns/lab/home/web/a1'', record_json ''10.0.0.1'')]"
  using CreateDNSRecords_stops_at_failure[of faulty_store 1 "[]" example_config "''web.home.lab''"
      "[''10.0.0.1'', ''10.0.0.2'', ''2001:db8::1'']"]
  by (simp add: fault_free_faulty example_writes) (simp add: faulty_store_def)

section \<open>The multi-address strategy\<close>

lemma first_ipv4_loop_keep:
  "first_ipv4_loop ips result found = result @ keep_first found ips"
proof (induction ips arbitrary: result found)
  case Nil
  show ?case by simp
next
  case (Cons ip ips)
  show ?case
  proof (cases "ParseIP ip")
    case None
    then show ?thesis using Cons by (simp add: ip_family_def)
  next
    case (Some netIP)
    then show ?thesis using Cons by (simp add: ip_family_def)
  qed
qed

lemma keep_first_valid: "list_all (\<lambda>x. ParseIP x \<noteq> None) (keep_first found ips)"
proof (induction ips arbitrary: found)
  case Nil
  show ?case by simp
next
  case (Cons ip ips)
  show ?case
  proof (cases "ip_family ip")
    case None
    then show ?thesis using Cons by simp
  next
    case (Some f)
    then have "ParseIP ip \<noteq> None" using ip_family_None[of ip] by simp
    then show ?thesis using Some Cons by (cases f) auto
  qed
qed

lemma keep_first_subseq: "subseq (keep_first found ips) ips"
proof (induction ips arbitrary: found)
  case Nil
  show ?case by simp
next
  case (Cons ip ips)
  have skip: "subseq (keep_first f ips) (ip # ips)" for f
    using Cons[of f] by (rule list_emb_Cons)
  have keep: "subseq (ip # keep_first f ips) (ip # ips)" for f
    using Cons[of f] by (rule subseq_Cons2)
  show ?case
  proof (cases "ip_family ip")
    case None
    then show ?thesis using skip by simp
  next
    case (Some f)
    then show ?thesis using skip keep by (cases f) auto
  qed
qed

lemma keep_first_v6:
  "filter (\<lambda>x. ip_family x = Some IPv6) (keep_first found ips) =
   filter (\<lambda>x. ip_family x = Some IPv6) ips"
proof (induction ips arbitrary: found)
  case Nil
  show ?case by simp
next
  case (Cons ip ips)
  show ?case
  proof (cases "ip_family ip")
    case None
    then show ?thesis using Cons by simp
  next
    case (Some f)
    then show ?thesis using Cons by (cases f) auto
  qed
qed

lemma keep_first_v4:
  "filter (\<lambda>x. ip_family x = Some IPv4) (keep_first found ips) =
   (if found then [] else take 1 (filter (\<lambda>x. ip_family x = Some IPv4) ips))"
proof (induction ips arbitrary: found)
  case Nil
  show ?case by simp
next
  case (Cons ip ips)
  show ?case
  proof (cases "ip_family ip")
    case None
    then show ?thesis using Cons by simp
  next
    case (Some f)
    then show ?thesis using Cons by (cases f) auto
  qed
qed

text \<open>
  Claim C2, as amended: under \<^verbatim>\<open>all\<close> the strategy returns its input unchanged (every
  valid address is kept in encounter order, and a string that does not parse is kept as
  well); under every other value (\<^verbatim>\<open>first\<close>) the output holds only strings that parse,
  in their original order: the first IPv4 address and all IPv6 addresses.
\<close>

theorem multi_address_strategy:
  "(ProxmoxMultiIPv4 config = ''all'' \<longrightarrow> applyMultiIPv4Strategy config ips = ips) \<and>
   (ProxmoxMultiIPv4 config \<noteq> ''all'' \<longrightarrow>
      list_all (\<lambda>x. ParseIP x \<noteq> None) (applyMultiIPv4Strategy config ips) \<and>
      subseq (applyMultiIPv4Strategy config ips) ips \<and>
      filter (\<lambda>x. ip_family x = Some IPv4) (applyMultiIPv4Strategy config ips) =
        take 1 (filter (\<lambda>x. ip_family x = Some IPv4) ips) \<and>
      filter (\<lambda>x. ip_family x = Some IPv6) (applyMultiIPv4Strategy config ips) =
        filter (\<lambda>x. ip_family x = Some IPv6) ips)"
proof (intro conjI impI)
  assume "ProxmoxMultiIPv4 config = ''all''"
  then show "applyMultiIPv4Strategy config ips = ips"
    by (simp add: applyMultiIPv4Strategy_def)
next
  assume "ProxmoxMultiIPv4 config \<noteq> ''all''"
  then have out: "applyMultiIPv4Strategy config ips = keep_first False ips"
    by (simp add: applyMultiIPv4Strategy_def first_ipv4_loop_keep)
  show "list_all (\<lambda>x. ParseIP x \<noteq> None) (applyMultiIPv4Strategy config ips)"
    unfolding out by (rule keep_first_valid)
  show "subseq (applyMultiIPv4Strategy config ips) ips"
    unfolding out by (rule keep_first_subseq)
  show "filter (\<lambda>x. ip_family x = Some IPv4) (applyMultiIPv4Strategy config ips) =
      take 1 (filter (\<lambda>x. ip_family x = Some IPv4) ips)"
    unfolding out by (simp add: keep_first_v4)
  show "filter (\<lambda>x. ip_family x = Some IPv6) (applyMultiIPv4Strategy config ips) =
      filter (\<lambda>x. ip_family x = Some IPv6) ips"
    unfolding out by (rule keep_first_v6)
qed

lemma example_strategy: "ProxmoxMultiIPv4 example_config = ''first''"
  by (simp add: example_config_def)

lemma family_examples:
  "ip_family ''10.0.0.1'' = Some IPv4" "ip_family ''10.0.0.2'' = Some IPv4"
  "ip_family ''192.0.2.5'' = Some IPv4" "ip_family ''fe80::1'' = Some IPv6"
  "ip_family ''2001:db8::1'' = Some IPv6" "ip_family ''2001:db8::2'' = Some IPv6"
  "ip_family ''2001:db8::5'' = Some IPv6" "ip_family ''bogus'' = None"
  by (simp_all add: ip_family_def ParseIP_examples To4_examples)

lemma example_first:
  "applyMultiIPv4Strategy example_config [''10.0.0.1'', ''10.0.0.2'', ''fe80::1'', ''2001:db8::1'', ''2001:db8::2''] =
     [''10.0.0.1'', ''fe80::1'', ''2001:db8::1'', ''2001:db8::2'']"
  by (simp add: applyMultiIPv4Strategy_def example_strategy first_ipv4_loop_keep family_examples)

theorem multi_address_strategy_witness:
  "ProxmoxMultiIPv4 (example_config\<lparr> ProxmoxMultiIPv4 := ''all'' \<rparr>) = ''all'' \<and>
   applyMultiIPv4Strategy (example_config\<lparr> ProxmoxMultiIPv4 := ''all'' \<rparr>) [''10.0.0.1'', ''10.0.0.2'', ''2001:db8::1''] =
     [''10.0.0.1'', ''10.0.0.2'', ''2001:db8::1''] \<and>
   ProxmoxMultiIPv4 example_config \<noteq> ''all'' \<and>
   list_all (\<lambda>x. ParseIP x \<noteq> None)
     (applyMultiIPv4Strategy example_config [''10.0.0.1'', ''bogus'', ''10.0.0.2'', ''2001:db8::1'']) \<and>
   subseq (applyMultiIPv4Strategy example_config [''10.0.0.1'', ''bogus'', ''10.0.0.2'', ''2001:db8::1''])
     [''10.0.0.1'', ''bogus'', ''10.0.0.2'', ''2001:db8::1''] \<and>
   filter (\<lambda>x. ip_family x = Some IPv4)
     (applyMultiIPv4Strategy example_config [''10.0.0.1'', ''bogus'', ''10.0.0.2'', ''2001:db8::1'']) = [''10.0.0.1''] \<and>
   filter (\<lambda>x. ip_family x = Some IPv6)
     (applyMultiIPv4Strategy example_config [''10.0.0.1'', ''bogus'', ''10.0.0.2'', ''2001:db8::1'']) = [''2001:db8::1'']"
proof -
  have all: "ProxmoxMultiIPv4 (example_config\<lparr> ProxmoxMultiIPv4 := ''all'' \<rparr>) = ''all''" by simp
  have first: "ProxmoxMultiIPv4 example_config \<noteq> ''all''" by (simp add: example_strategy)
  note a = multi_address_strategy[of "example_config\<lparr> ProxmoxMultiIPv4 := ''all'' \<rparr>"
      "[''10.0.0.1'', ''10.0.0.2'', ''2001:db8::1'']"]
  note f = multi_address_strategy[of example_config "[''10.0.0.1'', ''bogus'', ''10.0.0.2'', ''2001:db8::1'']"]
  from a all have 1: "applyMultiIPv4Strategy (example_config\<lparr> ProxmoxMultiIPv4 := ''all'' \<rparr>)
      [''10.0.0.1'', ''10.0.0.2'', ''2001:db8::1''] = [''10.0.0.1'', ''10.0.0.2'', ''2001:db8::1'']"
    by blast
  have v4: "take 1 (filter (\<lambda>x. ip_family x = Some IPv4) [''10.0.0.1'', ''bogus'', ''10.0.0.2'', ''2001:db8::1'']) =
      [''10.0.0.1'']"
    by (simp add: family_examples)
  have v6: "filter (\<lambda>x. ip_family x = Some IPv6) [''10.0.0.1'', ''bogus'', ''10.0.0.2'', ''2001:db8::1''] =
      [''2001:db8::1'']"
    by (simp add: family_examples)
  from f first have 2: "list_all (\<lambda>x. ParseIP x \<noteq> None)
        (applyMultiIPv4Strategy example_config [''10.0.0.1'', ''bogus'', ''10.0.0.2'', ''2001:db8::1''])"
    and 3: "subseq (applyMultiIPv4Strategy example_config [''10.0.0.1'', ''bogus'', ''10.0.0.2'', ''2001:db8::1''])
        [''10.0.0.1'', ''bogus'', ''10.0.0.2'', ''2001:db8::1'']"
    and 4: "filter (\<lambda>x. ip_family x = Some IPv4)
        (applyMultiIPv4Strategy example_config [''10.0.0.1'', ''bogus'', ''10.0.0.2'', ''2001:db8::1'']) =
        take 1 (filter (\<lambda>x. ip_family x = Some IPv4) [''10.0.0.1'', ''bogus'', ''10.0.0.2'', ''2001:db8::1''])"
    and 5: "filter (\<lambda>x. ip_family x = Some IPv6)
        (applyMultiIPv4Strategy example_config [''10.0.0.1'', ''bogus'', ''10.0.0.2'', ''2001:db8::1'']) =
        filter (\<lambda>x. ip_family x = Some IPv6) [''10.0.0.1'', ''bogus'', ''10.0.0.2'', ''2001:db8::1'']"
    by blast+
  from all 1 first 2 3 4[unfolded v4] 5[unfolded v6] show ?thesis by (intro conjI)
qed

text \<open>Under \<^verbatim>\<open>all\<close> a string that is no IP literal stays in the output.\<close>

theorem strategy_all_counterexample:
  "applyMultiIPv4Strategy (example_config\<lparr> ProxmoxMultiIPv4 := ''all'' \<rparr>) [''10.0.0.1'', ''bogus''] =
     [''10.0.0.1'', ''bogus''] \<and>
   ParseIP ''bogus'' = None"
  by (simp add: applyMultiIPv4Strategy_def ParseIP_bogus)

section \<open>Address resolution of a Proxmox guest\<close>

lemma TrimLeftSpace_id: "space_width s = 0 \<Longrightarrow> TrimLeftSpace s = s"
  by (subst TrimLeftSpace.simps) simp

lemma TrimRightSpace_id: "space_width_end s = 0 \<Longrightarrow> TrimRightSpace s = s"
  by (subst TrimRightSpace.simps) simp

lemma TrimSpace_id: "space_width s = 0 \<Longrightarrow> space_width_end s = 0 \<Longrightarrow> TrimSpace s = s"
  by (simp add: TrimSpace_def TrimLeftSpace_id TrimRightSpace_id)

lemmas TrimSpace_eval = TrimSpace_id space_width_end_def ascii_space_def space2_def space3_def byte_def

lemma HasPrefix_append: "HasPrefix (p @ v) p"
  by (simp add: HasPrefix_def)

lemma TrimPrefix_append: "TrimPrefix (p @ v) p = v"
  by (simp add: TrimPrefix_def HasPrefix_def)

lemma getTagValue_first:
  assumes "list_all (\<lambda>u. \<not> HasPrefix (TrimSpace u) (key @ '':'')) pre"
    and "TrimSpace t = key @ '':'' @ v"
  shows "getTagValue (pre @ t # post) key = v"
  using assms(1)
proof (induction pre)
  case Nil
  have "TrimSpace t = (key @ '':'') @ v" using assms(2) by simp
  then show ?case by (simp only: append_Nil getTagValue.simps Let_def HasPrefix_append TrimPrefix_append if_True)
next
  case (Cons u pre)
  then show ?case by (simp add: Let_def)
qed

lemma getResourceIPs_explicit:
  "getTagValue tags ''dnsherpa-ip'' \<noteq> [] \<Longrightarrow>
   getResourceIPs config api resource tags =
     Inr (filter (\<lambda>ip. ParseIP ip \<noteq> None)
            (map TrimSpace (Split (getTagValue tags ''dnsherpa-ip'') CHR '','')))"
  by (simp add: getResourceIPs_def Let_def)

lemma getResourceIPs_live:
  "getTagValue tags ''dnsherpa-ip'' = [] \<Longrightarrow>
   getResourceIPs config api resource tags =
     extractIPsFromInterface config api resource
       (if getTagValue tags ''dnsherpa-interface'' = [] then ProxmoxInterface config
        else getTagValue tags ''dnsherpa-interface'')"
  by (simp add: getResourceIPs_def Let_def)

text \<open>
  Claim C7, as amended: when the first tag that starts with \<^verbatim>\<open>dnsherpa-ip:\<close> (white space
  around the tag trimmed) has a non-empty value, resolution returns the comma-separated
  entries of that value, each trimmed of white space, that parse as IP literals, in
  order, whatever the API would answer: no live interface data is consulted.
\<close>

theorem explicit_ip_tag:
  assumes "list_all (\<lambda>u. \<not> HasPrefix (TrimSpace u) ''dnsherpa-ip:'') pre"
    and "TrimSpace t = ''dnsherpa-ip:'' @ v"
    and "v \<noteq> []"
  shows "getResourceIPs config api resource (pre @ t # post) =
     Inr (filter (\<lambda>ip. ParseIP ip \<noteq> None) (map TrimSpace (Split v CHR '','')))"
proof -
  have "getTagValue (pre @ t # post) ''dnsherpa-ip'' = v"
    using getTagValue_first[of "''dnsherpa-ip''" pre t v post] assms(1,2) by simp
  with assms(3) show ?thesis by (simp add: getResourceIPs_explicit)
qed

lemma Split_example_ips: "Split ''192.0.2.5,2001:db8::5'' CHR '','' = [''192.0.2.5'', ''2001:db8::5'']"
  by simp

lemma TrimSpace_examples:
  "TrimSpace ''prod'' = ''prod''"
  "TrimSpace ''192.0.2.5'' = ''192.0.2.5''"
  "TrimSpace ''2001:db8::5'' = ''2001:db8::5''"
  "TrimSpace ''10.0.0.1'' = ''10.0.0.1''"
  "TrimSpace ''10.0.0.2'' = ''10.0.0.2''"
  "TrimSpace ''dnsherpa-ip:'' = ''dnsherpa-ip:''"
  "TrimSpace ''dnsherpa-ip:192.0.2.5'' = ''dnsherpa-ip:192.0.2.5''"
  "TrimSpace ''dnsherpa-ip:10.0.0.1,10.0.0.2'' = ''dnsherpa-ip:10.0.0.1,10.0.0.2''"
  "TrimSpace ''dnsherpa-ip:192.0.2.5,2001:db8::5'' = ''dnsherpa-ip:192.0.2.5,2001:db8::5''"
  by (simp_all add: TrimSpace_eval)

theorem explicit_ip_tag_witness:
  "list_all (\<lambda>u. \<not> HasPrefix (TrimSpace u) ''dnsherpa-ip:'') [''prod''] \<and>
   TrimSpace ''dnsherpa-ip:192.0.2.5,2001:db8::5'' = ''dnsherpa-ip:'' @ ''192.0.2.5,2001:db8::5'' \<and>
   ''192.0.2.5,2001:db8::5'' \<noteq> [] \<and>
   getResourceIPs example_config example_api example_vm
     ([''prod''] @ ''dnsherpa-ip:192.0.2.5,2001:db8::5'' # []) = Inr [''192.0.2.5'', ''2001:db8::5'']"
proof -
  have 1: "list_all (\<lambda>u. \<not> HasPrefix (TrimSpace u) ''dnsherpa-ip:'') [''prod'']"
    by (simp add: TrimSpace_examples HasPrefix_def)
  have 2: "TrimSpace ''dnsherpa-ip:192.0.2.5,2001:db8::5'' = ''dnsherpa-ip:'' @ ''192.0.2.5,2001:db8::5''"
    by (simp add: TrimSpace_examples)
  have 3: "''192.0.2.5,2001:db8::5'' \<noteq> []" by simp
  have "filter (\<lambda>ip. ParseIP ip \<noteq> None) (map TrimSpace (Split ''192.0.2.5,2001:db8::5'' CHR '','')) =
      [''192.0.2.5'', ''2001:db8::5'']"
    by (simp add: TrimSpace_examples ParseIP_examples)
  with explicit_ip_tag[OF 1 2 3, of example_config example_api example_vm "[]"]
  have 4: "getResourceIPs example_config example_api example_vm
      ([''prod''] @ ''dnsherpa-ip:192.0.2.5,2001:db8::5'' # []) = Inr [''192.0.2.5'', ''2001:db8::5'']"
    by simp
  from 1 2 3 4 show ?thesis by (intro conjI)
qed

lemma example_agent_addresses:
  "agent_addresses example_agent_ifaces ''eth0'' =
     [''10.0.0.1'', ''10.0.0.2'', ''fe80::1'', ''2001:db8::1'', ''2001:db8::2'']"
  by (simp add: agent_addresses_def example_agent_ifaces_def)

lemma example_container_addresses:
  "container_addresses example_lxc_ifaces ''eth0'' = [''10.0.0.1'']"
  by (simp add: container_addresses_def example_lxc_ifaces_def HasPrefix_def)

lemma example_vm_live:
  "extractIPsFromInterface config example_api example_vm ''eth0'' =
     Inr (applyMultiIPv4Strategy config
       [''10.0.0.1'', ''10.0.0.2'', ''fe80::1'', ''2001:db8::1'', ''2001:db8::2''])"
  by (simp add: extractIPsFromInterface_def example_api_def example_vm_def example_agent_addresses)

lemma example_interface: "ProxmoxInterface example_config = ''eth0''"
  by (simp add: example_config_def)

text \<open>
  Two tags with the prefix \<^verbatim>\<open>dnsherpa-ip:\<close>, the first with an empty value: the second
  is not read, and the addresses come from the guest agent.
\<close>

theorem explicit_ip_tag_counterexample:
  "getResourceIPs example_config example_api example_vm [''dnsherpa-ip:'', ''dnsherpa-ip:192.0.2.5''] =
     Inr [''10.0.0.1'', ''fe80::1'', ''2001:db8::1'', ''2001:db8::2''] \<and>
   getResourceIPs example_config example_api example_vm [''dnsherpa-ip:'', ''dnsherpa-ip:192.0.2.5''] \<noteq>
     Inr [''192.0.2.5'']"
proof -
  have v: "getTagValue [''dnsherpa-ip:'', ''dnsherpa-ip:192.0.2.5''] ''dnsherpa-ip'' = []"
    by (simp add: TrimSpace_examples HasPrefix_def TrimPrefix_def)
  have i: "getTagValue [''dnsherpa-ip:'', ''dnsherpa-ip:192.0.2.5''] ''dnsherpa-interface'' = []"
    by (simp add: TrimSpace_examples HasPrefix_def TrimPrefix_def)
  have "getResourceIPs example_config example_api example_vm [''dnsherpa-ip:'', ''dnsherpa-ip:192.0.2.5''] =
      extractIPsFromInterface example_config example_api example_vm ''eth0''"
    using getResourceIPs_live[OF v, of example_config example_api example_vm]
    by (simp add: i example_interface del: getTagValue.simps)
  then show ?thesis by (simp add: example_vm_live example_first)
qed

section \<open>Live interface data, the strategy and the opt-out tag\<close>

lemma example_ct_live:
  "extractIPsFromInterface config example_api example_ct ''eth0'' =
     Inr (applyMultiIPv4Strategy config [''10.0.0.1''])"
  by (simp add: extractIPsFromInterface_def example_api_def example_ct_def example_container_addresses)

lemma example_first_single: "applyMultiIPv4Strategy example_config [''10.0.0.1''] = [''10.0.0.1'']"
  by (simp add: applyMultiIPv4Strategy_def example_strategy first_ipv4_loop_keep family_examples)

lemma example_all: "applyMultiIPv4Strategy (example_config\<lparr> ProxmoxMultiIPv4 := ''all'' \<rparr>) ips = ips"
  by (simp add: applyMultiIPv4Strategy_def)

text \<open>
  Claim C3 on the code: for a VM the guest agent's link-local address \<^verbatim>\<open>fe80::1\<close> stays in
  the resolved list under both strategies (only the two literals \<^verbatim>\<open>127.0.0.1\<close> and
  \<^verbatim>\<open>::1\<close> are left out), while for a container an address that starts with \<^verbatim>\<open>fe80::\<close> is
  left out.
\<close>

theorem qemu_link_local_kept:
  "extractIPsFromInterface example_config example_api example_vm ''eth0'' =
     Inr [''10.0.0.1'', ''fe80::1'', ''2001:db8::1'', ''2001:db8::2''] \<and>
   extractIPsFromInterface (example_config\<lparr> ProxmoxMultiIPv4 := ''all'' \<rparr>) example_api example_vm ''eth0'' =
     Inr [''10.0.0.1'', ''10.0.0.2'', ''fe80::1'', ''2001:db8::1'', ''2001:db8::2''] \<and>
   extractIPsFromInterface example_config example_api example_ct ''eth0'' = Inr [''10.0.0.1'']"
  by (simp add: example_vm_live example_ct_live example_first example_first_single example_all)

text \<open>
  Claim C8, as amended: the strategy is applied to the addresses collected from live
  interface data (the guest agent of a VM, the interface list of a container); the
  static fallback returns no address; the addresses of an explicit \<^verbatim>\<open>dnsherpa-ip\<close> tag
  are returned as they are, without the strategy.
\<close>

theorem strategy_on_live_data:
  assumes "Node api (res_Node resource)"
    and "interfaceName = (if getTagValue tags ''dnsherpa-interface'' = [] then ProxmoxInterface config
                          else getTagValue tags ''dnsherpa-interface'')"
  shows "(getTagValue tags ''dnsherpa-ip'' = [] \<and> res_Type resource = ''qemu'' \<and>
            VirtualMachine api (res_Node resource) (res_VMID resource) \<and>
            AgentGetNetworkIFaces api (res_Node resource) (res_VMID resource) = Some agent \<longrightarrow>
            getResourceIPs config api resource tags =
              Inr (applyMultiIPv4Strategy config (agent_addresses agent interfaceName))) \<and>
         (getTagValue tags ''dnsherpa-ip'' = [] \<and> res_Type resource = ''lxc'' \<and>
            LxcContainer api (res_Node resource) (res_VMID resource) \<and>
            Interfaces api (res_Node resource) (res_VMID resource) = Some lxc \<longrightarrow>
            getResourceIPs config api resource tags =
              Inr (applyMultiIPv4Strategy config (container_addresses lxc interfaceName))) \<and>
         (getTagValue tags ''dnsherpa-ip'' = [] \<and> res_Type resource = ''qemu'' \<and>
            VirtualMachine api (res_Node resource) (res_VMID resource) \<and>
            AgentGetNetworkIFaces api (res_Node resource) (res_VMID resource) = None \<longrightarrow>
            getResourceIPs config api resource tags = Inr []) \<and>
         (getTagValue tags ''dnsherpa-ip'' = [] \<and> res_Type resource = ''lxc'' \<and>
            LxcContainer api (res_Node resource) (res_VMID resource) \<and>
            Interfaces api (res_Node resource) (res_VMID resource) = None \<longrightarrow>
            getResourceIPs config api resource tags = Inr []) \<and>
         (getTagValue tags ''dnsherpa-ip'' \<noteq> [] \<longrightarrow>
            getResourceIPs config api resource tags =
              Inr (filter (\<lambda>ip. ParseIP ip \<noteq> None)
                     (map TrimSpace (Split (getTagValue tags ''dnsherpa-ip'') CHR '',''))))"
proof -
  have live: "getResourceIPs config api resource tags =
      extractIPsFromInterface config api resource interfaceName"
    if "getTagValue tags ''dnsherpa-ip'' = []"
    using getResourceIPs_live[OF that, of config api resource] assms(2) by simp
  have lxc_not_qemu: "''lxc'' \<noteq> ''qemu''" by simp
  show ?thesis
    using assms(1) live getResourceIPs_explicit[of tags config api resource]
    by (auto simp: extractIPsFromInterface_def extractIPsFromConfig_def)
qed

lemma example_no_tags:
  "getTagValue [''prod''] ''dnsherpa-ip'' = []" "getTagValue [''prod''] ''dnsherpa-interface'' = []"
  by (simp_all add: TrimSpace_examples HasPrefix_def)

lemma example_two_ips:
  "getTagValue [''dnsherpa-ip:10.0.0.1,10.0.0.2''] ''dnsherpa-ip'' = ''10.0.0.1,10.0.0.2''"
  by (simp add: TrimSpace_examples HasPrefix_def TrimPrefix_def)

lemma example_two_ips_result:
  "getResourceIPs example_config example_api example_vm [''dnsherpa-ip:10.0.0.1,10.0.0.2''] =
     Inr [''10.0.0.1'', ''10.0.0.2'']"
proof -
  have ne: "getTagValue [''dnsherpa-ip:10.0.0.1,10.0.0.2''] ''dnsherpa-ip'' \<noteq> []"
    by (simp only: example_two_ips) simp
  show ?thesis
    by (simp only: getResourceIPs_explicit[OF ne] example_two_ips)
       (simp add: TrimSpace_examples ParseIP_examples)
qed

theorem strategy_on_live_data_witness:
  "Node example_api (res_Node example_vm) \<and>
   ''eth0'' = (if getTagValue [''prod''] ''dnsherpa-interface'' = [] then ProxmoxInterface example_config
               else getTagValue [''prod''] ''dnsherpa-interface'') \<and>
   getTagValue [''prod''] ''dnsherpa-ip'' = [] \<and> res_Type example_vm = ''qemu'' \<and>
   VirtualMachine example_api (res_Node example_vm) (res_VMID example_vm) \<and>
   AgentGetNetworkIFaces example_api (res_Node example_vm) (res_VMID example_vm) = Some example_agent_ifaces \<and>
   getResourceIPs example_config example_api example_vm [''prod''] =
     Inr (applyMultiIPv4Strategy example_config (agent_addresses example_agent_ifaces ''eth0'')) \<and>
   getResourceIPs example_config example_api example_vm [''prod''] =
     Inr [''10.0.0.1'', ''fe80::1'', ''2001:db8::1'', ''2001:db8::2'']"
proof -
  have 1: "Node example_api (res_Node example_vm)" by (simp add: example_api_def)
  have 2: "''eth0'' = (if getTagValue [''prod''] ''dnsherpa-interface'' = [] then ProxmoxInterface example_config
               else getTagValue [''prod''] ''dnsherpa-interface'')"
    by (simp only: example_no_tags example_interface) simp
  have 3: "getTagValue [''prod''] ''dnsherpa-ip'' = []" by (rule example_no_tags)
  have 4: "res_Type example_vm = ''qemu''" by (simp add: example_vm_def)
  have 5: "VirtualMachine example_api (res_Node example_vm) (res_VMID example_vm)"
    by (simp add: example_api_def)
  have 6: "AgentGetNetworkIFaces example_api (res_Node example_vm) (res_VMID example_vm) =
      Some example_agent_ifaces"
    by (simp add: example_api_def)
  from strategy_on_live_data[OF 1 2, of example_agent_ifaces] 3 4 5 6
  have 7: "getResourceIPs example_config example_api example_vm [''prod''] =
      Inr (applyMultiIPv4Strategy example_config (agent_addresses example_agent_ifaces ''eth0''))"
    by blast
  then have 8: "getResourceIPs example_config example_api example_vm [''prod''] =
      Inr [''10.0.0.1'', ''fe80::1'', ''2001:db8::1'', ''2001:db8::2'']"
    by (simp only: example_agent_addresses example_first)
  from 1 2 3 4 5 6 7 8 show ?thesis by (intro conjI)
qed

text \<open>
  An explicit tag with two IPv4 addresses under \<^verbatim>\<open>first\<close>: both are returned, though the
  strategy would keep the first only.
\<close>

theorem explicit_tag_unfiltered_counterexample:
  "getResourceIPs example_config example_api example_vm [''dnsherpa-ip:10.0.0.1,10.0.0.2''] =
     Inr [''10.0.0.1'', ''10.0.0.2''] \<and>
   applyMultiIPv4Strategy example_config [''10.0.0.1'', ''10.0.0.2''] = [''10.0.0.1'']"
  by (simp add: example_two_ips_result applyMultiIPv4Strategy_def example_strategy
      first_ipv4_loop_keep family_examples)

lemma HasTag_skips:
  "HasTag g ''dnsherpa-skip'' \<Longrightarrow>
   processVM config api st g nodeName = (None, st) \<and>
   processContainer config api st g nodeName = (None, st)"
  by (simp add: processVM_def processContainer_def)

lemma loaded_guest_skipped:
  "processVM example_config example_api empty_store loaded_guest ''pve'' = (None, empty_store) \<and>
   processContainer example_config example_api empty_store loaded_guest ''pve'' = (None, empty_store)"
  by (rule HasTag_skips) (simp add: HasTag_def loaded_guest_def example_guest_def)

lemma example_guest_tags:
  "Split (Tags example_guest) CHR '';'' = [''dnsherpa-skip'', ''dnsherpa-ip:10.0.0.1'']"
  by (simp add: example_guest_def)

lemma example_guest_ips:
  "getResourceIPs example_config example_api resource [''dnsherpa-skip'', ''dnsherpa-ip:10.0.0.1''] =
     Inr [''10.0.0.1'']"
proof -
  have t: "TrimSpace ''dnsherpa-skip'' = ''dnsherpa-skip''"
      "TrimSpace ''dnsherpa-ip:10.0.0.1'' = ''dnsherpa-ip:10.0.0.1''"
    by (simp_all add: TrimSpace_eval)
  have v: "getTagValue [''dnsherpa-skip'', ''dnsherpa-ip:10.0.0.1''] ''dnsherpa-ip'' = ''10.0.0.1''"
    by (simp add: t HasPrefix_def TrimPrefix_def)
  then have ne: "getTagValue [''dnsherpa-skip'', ''dnsherpa-ip:10.0.0.1''] ''dnsherpa-ip'' \<noteq> []"
    by simp
  show ?thesis
    by (simp only: getResourceIPs_explicit[OF ne] v) (simp add: TrimSpace_examples ParseIP_examples)
qed

lemma example_hostname: "generateHostname example_config ''web'' = ''web.home.lab''"
  by (simp add: generateHostname_def example_config_def HasPrefix_def)

text \<open>
  Claim C6 on the code: a running guest that carries the tag \<^verbatim>\<open>dnsherpa-skip\<close>, handed
  on as the entry of a listing, is not skipped: \<^verbatim>\<open>HasTag\<close> finds no tag, and
  \<^verbatim>\<open>processVM\<close> and \<^verbatim>\<open>processContainer\<close> write its record.
\<close>

theorem skip_tag_not_honoured:
  "''dnsherpa-skip'' \<in> set (Split (Tags example_guest) CHR '';'') \<and>
   HasTag example_guest ''dnsherpa-skip'' = False \<and>
   writes_of empty_store (snd (processVM example_config example_api empty_store example_guest ''pve'')) =
     [(''/skydns/lab/home/web/a1'', record_json ''10.0.0.1'')] \<and>
   writes_of empty_store (snd (processContainer example_config example_api empty_store example_guest ''pve'')) =
     [(''/skydns/lab/home/web/a1'', record_json ''10.0.0.1'')]"
proof -
  have no_tag: "HasTag example_guest ''dnsherpa-skip'' = False"
    by (simp add: HasTag_def example_guest_def)
  have name: "Name example_guest = ''web''" and tags: "Tags example_guest \<noteq> []"
    by (simp_all add: example_guest_def)
  have vm: "processVM example_config example_api empty_store example_guest ''pve'' =
      CreateDNSRecords example_config empty_store ''web.home.lab'' [''10.0.0.1'']"
    by (simp add: processVM_def no_tag name tags example_guest_tags example_guest_ips
        example_hostname Let_def)
  have ct: "processContainer example_config example_api empty_store example_guest ''pve'' =
      CreateDNSRecords example_config empty_store ''web.home.lab'' [''10.0.0.1'']"
    by (simp add: processContainer_def no_tag name tags example_guest_tags example_guest_ips
        example_hostname Let_def)
  show ?thesis
    by (simp only: vm ct example_writes_single no_tag example_guest_tags) simp
qed

section \<open>The Docker sync\<close>

lemma CreateDNSRecord_run:
  "snd (CreateDNSRecord config st hostname) = snd (run_puts st [host_record config hostname])"
  by (simp add: CreateDNSRecord_def host_record_def Let_def split: prod.splits option.splits)

lemma run_puts_append_sound:
  assumes "True \<notin> set (put_faults st)"
  shows "snd (run_puts st (ps @ qs)) = snd (run_puts (snd (run_puts st ps)) qs)"
proof -
  let ?st1 = "st\<lparr> put_log := put_log st @ ps, put_faults := drop (length ps) (put_faults st),
                    kv := store_all (kv st) ps \<rparr>"
  have s1: "True \<notin> set (put_faults ?st1)"
    using assms set_drop_subset[of "length ps" "put_faults st"] by auto
  have "snd (run_puts (snd (run_puts st ps)) qs) = snd (run_puts ?st1 qs)"
    by (simp add: writes_sound[OF assms])
  also have "\<dots> = ?st1\<lparr> put_log := put_log ?st1 @ qs, put_faults := drop (length qs) (put_faults ?st1),
                          kv := store_all (kv ?st1) qs \<rparr>"
    by (simp only: writes_sound[OF s1] snd_conv)
  also have "\<dots> = st\<lparr> put_log := put_log st @ ps @ qs,
                        put_faults := drop (length (ps @ qs)) (put_faults st),
                        kv := store_all (kv st) (ps @ qs) \<rparr>"
    by (simp add: store_all_def add.commute)
  also have "\<dots> = snd (run_puts st (ps @ qs))"
    by (simp only: writes_sound[OF assms] snd_conv)
  finally show ?thesis by simp
qed

lemma run_puts_sound_faults:
  assumes "True \<notin> set (put_faults st)"
  shows "True \<notin> set (put_faults (snd (run_puts st ps)))"
  using assms set_drop_subset[of "length ps" "put_faults st"]
  by (auto simp: writes_sound[OF assms])

lemma create_host_records_run:
  "True \<notin> set (put_faults st) \<Longrightarrow>
   create_host_records config st hosts = snd (run_puts st (map (host_record config) hosts))"
proof (induction hosts arbitrary: st)
  case Nil
  show ?case by simp
next
  case (Cons h hosts)
  let ?st' = "snd (run_puts st [host_record config h])"
  have s': "True \<notin> set (put_faults ?st')" using Cons.prems by (rule run_puts_sound_faults)
  have "create_host_records config st (h # hosts) = create_host_records config ?st' hosts"
    by (simp only: create_host_records.simps CreateDNSRecord_run)
  also have "\<dots> = snd (run_puts ?st' (map (host_record config) hosts))"
    using s' by (rule Cons.IH)
  also have "\<dots> = snd (run_puts st ([host_record config h] @ map (host_record config) hosts))"
    by (rule run_puts_append_sound[OF Cons.prems, symmetric])
  finally show ?case by (simp only: list.map append_Cons append_Nil)
qed

lemma sync_containers_run:
  "True \<notin> set (put_faults st) \<Longrightarrow>
   sync_containers config st containers =
     snd (run_puts st (map (host_record config) (all_hosts containers)))"
proof (induction containers arbitrary: st)
  case Nil
  show ?case by (simp add: all_hosts_def)
next
  case (Cons c cs)
  let ?hosts = "extractHostsFromLabels (Labels c)"
  let ?st' = "snd (run_puts st (map (host_record config) ?hosts))"
  have s': "True \<notin> set (put_faults ?st')" using Cons.prems by (rule run_puts_sound_faults)
  have "sync_containers config st (c # cs) = sync_containers config ?st' cs"
  proof (cases "?hosts = []")
    case True
    then show ?thesis by (simp add: Let_def)
  next
    case False
    then show ?thesis by (simp add: Let_def create_host_records_run[OF Cons.prems])
  qed
  also have "\<dots> = snd (run_puts ?st' (map (host_record config) (all_hosts cs)))"
    using s' by (rule Cons.IH)
  also have "\<dots> = snd (run_puts st (map (host_record config) ?hosts @ map (host_record config) (all_hosts cs)))"
    by (rule run_puts_append_sound[OF Cons.prems, symmetric])
  finally show ?case by (simp only: all_hosts_def list.map concat.simps map_append)
qed

text \<open>Every host gets the same value: the contents depend on the set of hosts only.\<close>

lemma store_all_hosts:
  "store_all m (map (host_record config) hosts) =
   (\<lambda>k. if k \<in> key_path (EtcdPrefix config) ` set hosts
        then Some (Marshal \<lparr> Host = DNSTarget config, TTL = RecordTTL config \<rparr>) else m k)"
proof (induction hosts arbitrary: m)
  case Nil
  show ?case by (simp add: store_all_def)
next
  case (Cons h hosts)
  show ?case
    by (simp only: list.map store_all_Cons Cons.IH) (auto simp: host_record_def)
qed

lemma extract_hosts_set:
  "set (Labels c') = set (Labels c) \<Longrightarrow>
   set (extractHostsFromLabels (Labels c')) = set (extractHostsFromLabels (Labels c))"
  by (simp add: extractHostsFromLabels_def)

lemma all_hosts_set:
  "list_all2 (\<lambda>c c'. set (Labels c') = set (Labels c)) containers containers' \<Longrightarrow>
   set (all_hosts containers') = set (all_hosts containers)"
proof (induction containers containers' rule: list_all2_induct)
  case Nil
  show ?case by simp
next
  case (Cons c cs c' cs')
  then show ?case using extract_hosts_set[of c' c] by (simp add: all_hosts_def)
qed

lemma CreateDNSRecord_log:
  "put_log (snd (CreateDNSRecord config st hostname)) = put_log st @ [host_record config hostname]"
  by (simp add: CreateDNSRecord_def host_record_def Put_def Let_def)

lemma create_host_records_log:
  "put_log (create_host_records config st hosts) = put_log st @ map (host_record config) hosts"
  by (induction hosts arbitrary: st) (simp_all add: CreateDNSRecord_log)

lemma sync_containers_log:
  "put_log (sync_containers config st containers) =
   put_log st @ map (host_record config) (all_hosts containers)"
proof (induction containers arbitrary: st)
  case Nil
  show ?case by (simp add: all_hosts_def)
next
  case (Cons c cs)
  show ?case
  proof (cases "extractHostsFromLabels (Labels c) = []")
    case True
    then show ?thesis using Cons[of st] by (simp add: Let_def all_hosts_def)
  next
    case False
    then show ?thesis
      using Cons[of "create_host_records config st (extractHostsFromLabels (Labels c))"]
      by (simp add: Let_def all_hosts_def create_host_records_log)
  qed
qed

lemma sync_writes:
  "writes_of st (snd (SyncExistingContainers config (Some containers) st)) =
   map (host_record config) (all_hosts containers)"
  by (simp add: SyncExistingContainers_def sync_containers_log writes_of_def)

text \<open>
  Claim C5, as amended: a second sync against the same containers (their label maps met in any
  order) hands the store the same keys with the same values as the first, whatever the
  store answers; and when the store's writes succeed, it leaves the contents of the
  store as the first sync left them.
\<close>

theorem docker_sync_idempotent:
  assumes "list_all2 (\<lambda>c c'. set (Labels c') = set (Labels c)) containers containers'"
  shows "set (writes_of (snd (SyncExistingContainers config (Some containers) st))
               (snd (SyncExistingContainers config (Some containers')
                  (snd (SyncExistingContainers config (Some containers) st))))) =
         set (writes_of st (snd (SyncExistingContainers config (Some containers) st))) \<and>
         (True \<notin> set (put_faults st) \<longrightarrow>
            kv (snd (SyncExistingContainers config (Some containers')
                  (snd (SyncExistingContainers config (Some containers) st)))) =
            kv (snd (SyncExistingContainers config (Some containers) st)))"
proof (intro conjI impI)
  have hosts: "set (all_hosts containers') = set (all_hosts containers)"
    using assms by (rule all_hosts_set)
  show "set (writes_of (snd (SyncExistingContainers config (Some containers) st))
               (snd (SyncExistingContainers config (Some containers')
                  (snd (SyncExistingContainers config (Some containers) st))))) =
        set (writes_of st (snd (SyncExistingContainers config (Some containers) st)))"
    by (simp only: sync_writes) (simp add: hosts)
  assume sound: "True \<notin> set (put_faults st)"
  let ?ps = "map (host_record config) (all_hosts containers)"
  let ?ps' = "map (host_record config) (all_hosts containers')"
  let ?st1 = "snd (run_puts st ?ps)"
  let ?st2 = "snd (run_puts ?st1 ?ps')"
  have s1: "True \<notin> set (put_faults ?st1)" using sound by (rule run_puts_sound_faults)
  have first: "snd (SyncExistingContainers config (Some containers) st) = ?st1"
    by (simp add: SyncExistingContainers_def sync_containers_run[OF sound])
  have second: "snd (SyncExistingContainers config (Some containers') ?st1) = ?st2"
    by (simp add: SyncExistingContainers_def sync_containers_run[OF s1])
  have kv1: "kv ?st1 = store_all (kv st) ?ps" by (simp add: writes_sound[OF sound])
  have kv2: "kv ?st2 = store_all (kv ?st1) ?ps'" by (simp add: writes_sound[OF s1])
  have "kv ?st2 = kv ?st1"
    unfolding kv2 unfolding kv1 by (rule ext) (simp add: store_all_hosts hosts)
  then show "kv (snd (SyncExistingContainers config (Some containers')
                  (snd (SyncExistingContainers config (Some containers) st)))) =
            kv (snd (SyncExistingContainers config (Some containers) st))"
    by (simp only: first second)
qed

lemma example_hosts:
  "extractHostsFromLabels (Labels example_container) = [''a.com'', ''b.com'']"
  by (simp add: example_container_def extractHostsFromLabels_def HasPrefix_def
      FindAllHost.simps match_host_def regex_space_def backtick_def byte_def)

lemma example_hosts':
  "extractHostsFromLabels (Labels example_container') = [''a.com'', ''b.com'']"
  by (simp add: example_container'_def extractHostsFromLabels_def HasPrefix_def
      FindAllHost.simps match_host_def regex_space_def backtick_def byte_def)

theorem docker_sync_idempotent_witness:
  "list_all2 (\<lambda>c c'. set (Labels c') = set (Labels c)) [example_container] [example_container'] \<and>
   True \<notin> set (put_faults empty_store) \<and>
   set (writes_of (snd (SyncExistingContainers example_config (Some [example_container]) empty_store))
         (snd (SyncExistingContainers example_config (Some [example_container'])
            (snd (SyncExistingContainers example_config (Some [example_container]) empty_store))))) =
   set (writes_of empty_store (snd (SyncExistingContainers example_config (Some [example_container]) empty_store))) \<and>
   kv (snd (SyncExistingContainers example_config (Some [example_container'])
         (snd (SyncExistingContainers example_config (Some [example_container]) empty_store)))) =
   kv (snd (SyncExistingContainers example_config (Some [example_container]) empty_store)) \<and>
   writes_of empty_store (snd (SyncExistingContainers example_config (Some [example_container]) empty_store)) =
     [(''/skydns/com/a'', record_json ''traefik.home.lab''), (''/skydns/com/b'', record_json ''traefik.home.lab'')]"
proof -
  have 1: "True \<notin> set (put_faults empty_store)" by (rule empty_store_sound)
  have 2: "list_all2 (\<lambda>c c'. set (Labels c') = set (Labels c)) [example_container] [example_container']"
    by (auto simp: example_container_def example_container'_def)
  note r = docker_sync_idempotent[OF 2, of example_config empty_store]
  have 3: "writes_of empty_store (snd (SyncExistingContainers example_config (Some [example_container]) empty_store)) =
      [(''/skydns/com/a'', record_json ''traefik.home.lab''), (''/skydns/com/b'', record_json ''traefik.home.lab'')]"
    by (simp add: sync_writes all_hosts_def example_hosts host_record_def example_prefix example_target
        example_TTL key_path_rev example_marshal)
  from 1 2 r 3 show ?thesis by blast
qed

text \<open>
  The first write of the first sync fails: the store has the key of \<^verbatim>\<open>a.com\<close> after the
  second sync and not after the first.
\<close>

theorem docker_sync_failed_write_counterexample:
  "kv (snd (SyncExistingContainers example_config (Some [example_container])
         (snd (SyncExistingContainers example_config (Some [example_container]) failing_once_store))))
      ''/skydns/com/a'' = Some (record_json ''traefik.home.lab'') \<and>
   kv (snd (SyncExistingContainers example_config (Some [example_container]) failing_once_store))
      ''/skydns/com/a'' = None"
  by (simp add: SyncExistingContainers_def Let_def example_hosts CreateDNSRecord_def Put_def
      failing_once_store_def key_path_rev example_prefix example_target example_TTL example_marshal)

end
